theory Spec2Isabelle
  imports Complex_Main "HOL-Library.AList"
begin

section \<open>Shared JavaScript runtime notions\<close>

text \<open>
  Both services live in \<^verbatim>\<open>core/autocomplete/util/ManualTypingStatisticsService.ts\<close>:
  \<^verbatim>\<open>ManualTypingStatisticsService\<close> (definitions prefixed \<open>mt_\<close> where a name is used by
  both classes) and \<^verbatim>\<open>AutocompleteStatisticsService\<close> (prefix \<open>ac_\<close>).

  JavaScript numbers are modelled as \<open>int\<close> (times, sizes, configuration values) or
  \<open>nat\<close> (counters that start at 0 and are only incremented), the two rates as \<open>rat\<close>.
  \<^verbatim>\<open>Date.now()\<close> is a parameter \<open>now\<close> of every operation that reads the clock.
\<close>

text \<open>A thrown value: an error object with its \<^verbatim>\<open>name\<close> and \<^verbatim>\<open>message\<close>
  (an absent field behaves as the empty string, by \<^verbatim>\<open>|| ""\<close>), or \<open>None\<close> for
  \<^verbatim>\<open>null\<close>, the initial value of \<^verbatim>\<open>lastError\<close>.\<close>

datatype js_error = JsError (err_name: string) (err_message: string)

type_synonym thrown = "js_error option"

text \<open>The outcome of one call of \<^verbatim>\<open>uploadLog\<close> (the HTTP transport, an external
  collaborator): it returns or it throws.\<close>

datatype upload_result = UploadOk | UploadThrows thrown

text \<open>What \<^verbatim>\<open>sendReport\<close> does, in order: \<open>Upload k p\<close> is the call of
  \<^verbatim>\<open>uploadLog(p)\<close> in attempt \<open>k\<close>, \<open>Wait d\<close> is
  \<^verbatim>\<open>await new Promise(resolve => setTimeout(resolve, d))\<close>.\<close>

datatype 'p effect = Upload nat 'p | Wait int

datatype send_result = Returned | Threw thrown

text \<open>How the promise of an \<^verbatim>\<open>async\<close> method settles.\<close>

datatype promise = Resolved | Rejected thrown

text \<open>The object passed to \<^verbatim>\<open>sendReport\<close>:
  \<^verbatim>\<open>{ events: allEventsToReport, ...this.statistics }\<close>.\<close>

record ('e, 's) payload =
  events :: "'e list"
  stats :: 's

subsection \<open>Strings\<close>

text \<open>\<^verbatim>\<open>String.prototype.toLowerCase\<close> on the ASCII letters; other characters are
  left as they are.\<close>

definition toLowerCase_char :: "char \<Rightarrow> char" where
  "toLowerCase_char c =
     (case map_of (zip ''ABCDEFGHIJKLMNOPQRSTUVWXYZ'' ''abcdefghijklmnopqrstuvwxyz'') c of
        Some l \<Rightarrow> l
      | None \<Rightarrow> c)"

definition toLowerCase :: "string \<Rightarrow> string" where
  "toLowerCase s = map toLowerCase_char s"

fun startsWith :: "string \<Rightarrow> string \<Rightarrow> bool" where
  "startsWith s [] = True"
| "startsWith [] (c # t) = False"
| "startsWith (d # s) (c # t) = (d = c \<and> startsWith s t)"

text \<open>\<^verbatim>\<open>s.includes(t)\<close>: \<open>t\<close> occurs in \<open>s\<close> as a contiguous substring.\<close>

fun includes_str :: "string \<Rightarrow> string \<Rightarrow> bool" where
  "includes_str [] t = (t = [])"
| "includes_str (d # s) t = (startsWith (d # s) t \<or> includes_str s t)"

subsection \<open>Error classification\<close>

text \<open>\<^verbatim>\<open>RETRYABLE_ERRORS\<close>, in insertion order.\<close>

definition RETRYABLE_ERRORS :: "string list" where
  "RETRYABLE_ERRORS =
     [''AbortError'', ''timeout'', ''network'', ''ECONNRESET'', ''ENOTFOUND'', ''ECONNREFUSED'']"

definition isRetryableError :: "thrown \<Rightarrow> bool" where
  "isRetryableError error =
     (case error of
        None \<Rightarrow> False
      | Some e \<Rightarrow>
          (let errorMessage = toLowerCase (err_message e);
               errorName = err_name e
           in errorName \<in> set RETRYABLE_ERRORS \<or>
              list_ex (\<lambda>retryableError. includes_str errorMessage (toLowerCase retryableError))
                RETRYABLE_ERRORS))"

subsection \<open>Interval timers\<close>

text \<open>The runtime's table of intervals that were registered with \<^verbatim>\<open>setInterval\<close>
  and not cleared since: handle and period. Neither service registers any other timer
  outside \<^verbatim>\<open>sendReport\<close>, whose back-off \<^verbatim>\<open>setTimeout\<close> is the effect \<open>Wait\<close>.\<close>

type_synonym timer_table = "(nat \<times> int) list"

definition clearInterval :: "nat \<Rightarrow> timer_table \<Rightarrow> timer_table" where
  "clearInterval h ts = filter (\<lambda>t. fst t \<noteq> h) ts"

section \<open>ManualTypingStatisticsService\<close>

record Position =
  line :: int
  character :: int

record ManualTypingStatistics =
  totalCharactersTyped :: int
  totalLinesTyped :: int
  totalKeystrokes :: int
  lastTypingTime :: int

record ManualTypingEvent =
  ev_type :: string
  timestamp :: int
  filepath :: string
  fileExtension :: string
  charactersAdded :: int
  linesAdded :: int
  position :: Position
  ev_text :: string

record ManualTypingConfig =
  enabled :: bool
  reportEnabled :: bool
  reportInterval :: int
  batchSize :: int
  retryAttempts :: int
  retryDelay :: int
  maxRetryDelay :: int
  requestTimeout :: int

text \<open>\<^verbatim>\<open>Partial<ManualTypingConfig>\<close>: every field may be absent.\<close>

record ManualTypingConfig_partial =
  p_enabled :: "bool option"
  p_reportEnabled :: "bool option"
  p_reportInterval :: "int option"
  p_batchSize :: "int option"
  p_retryAttempts :: "int option"
  p_retryDelay :: "int option"
  p_maxRetryDelay :: "int option"
  p_requestTimeout :: "int option"

definition DEFAULT_CONFIG :: ManualTypingConfig where
  "DEFAULT_CONFIG =
     \<lparr>enabled = True, reportEnabled = True, reportInterval = 5 * 60 * 1000, batchSize = 10,
      retryAttempts = 3, retryDelay = 1000, maxRetryDelay = 30000, requestTimeout = 10000\<rparr>"

definition CLEANUP_INTERVAL :: int where
  "CLEANUP_INTERVAL = 5 * 60 * 1000"

definition MAX_QUEUE_SIZE :: int where
  "MAX_QUEUE_SIZE = 1000"

definition MAX_FAILED_EVENTS_MULTIPLIER :: int where
  "MAX_FAILED_EVENTS_MULTIPLIER = 2"

type_synonym mt_payload = "(ManualTypingEvent, ManualTypingStatistics) payload"

text \<open>The fields of the class, then the runtime state the class acts on: the interval
  table, the next free timer handle, and \<open>inFlight\<close>, the payloads of the deliveries that
  were started by a call of \<^verbatim>\<open>reportEvents()\<close> whose promise is dropped (size trigger,
  periodic timer) and have not settled yet.\<close>

record mt_state =
  statistics :: ManualTypingStatistics
  config :: ManualTypingConfig
  reportQueue :: "ManualTypingEvent list"
  reportTimer :: "nat option"
  failedEvents :: "ManualTypingEvent list"
  lastCleanupTime :: int
  timers :: timer_table
  nextHandle :: nat
  inFlight :: "mt_payload list"

subsection \<open>Delivery with retries\<close>

text \<open>The delay of lines 256-259:
  \<^verbatim>\<open>Math.min(retryDelay * Math.pow(2, attempt - 1), maxRetryDelay)\<close>.\<close>

definition backoffDelay :: "ManualTypingConfig \<Rightarrow> nat \<Rightarrow> int" where
  "backoffDelay cfg attempt = min (retryDelay cfg * 2 ^ (attempt - 1)) (maxRetryDelay cfg)"

text \<open>The \<^verbatim>\<open>for\<close> loop of \<^verbatim>\<open>sendReport\<close> from \<open>attempt\<close> on, and the
  \<^verbatim>\<open>throw lastError\<close> after it. \<open>uploadLog k\<close> is the outcome of the upload in
  attempt \<open>k\<close>.\<close>

function mt_sendReport_loop ::
  "ManualTypingConfig \<Rightarrow> (nat \<Rightarrow> upload_result) \<Rightarrow> 'p \<Rightarrow> nat \<Rightarrow> thrown
     \<Rightarrow> send_result \<times> 'p effect list" where
  "mt_sendReport_loop cfg uploadLog payload attempt lastError =
     (if int attempt \<le> retryAttempts cfg then
        (case uploadLog attempt of
           UploadOk \<Rightarrow> (Returned, [Upload attempt payload])
         | UploadThrows error \<Rightarrow>
             if \<not> isRetryableError error then (Threw error, [Upload attempt payload])
             else
               (let waits = (if int attempt < retryAttempts cfg
                             then [Wait (backoffDelay cfg attempt)] else []);
                    rest = mt_sendReport_loop cfg uploadLog payload (Suc attempt) error
                in (fst rest, Upload attempt payload # waits @ snd rest)))
      else (Threw lastError, []))"
  by pat_completeness auto
termination
  by (relation "measure (\<lambda>(cfg, uploadLog, payload, attempt, lastError).
        nat (retryAttempts cfg + 1 - int attempt))") auto

declare mt_sendReport_loop.simps [simp del]

definition mt_sendReport ::
  "ManualTypingConfig \<Rightarrow> (nat \<Rightarrow> upload_result) \<Rightarrow> 'p \<Rightarrow> send_result \<times> 'p effect list" where
  "mt_sendReport cfg uploadLog payload = mt_sendReport_loop cfg uploadLog payload 1 None"

subsection \<open>Statistics\<close>

definition mt_resetStatistics :: "mt_state \<Rightarrow> mt_state" where
  "mt_resetStatistics st =
     st\<lparr>statistics := \<lparr>totalCharactersTyped = 0, totalLinesTyped = 0, totalKeystrokes = 0,
                        lastTypingTime = 0\<rparr>\<rparr>"

definition resetStatisticsAfterReport :: "mt_state \<Rightarrow> mt_state" where
  "resetStatisticsAfterReport st =
     st\<lparr>statistics := (statistics st)\<lparr>totalCharactersTyped := 0, totalLinesTyped := 0,
                                       totalKeystrokes := 0\<rparr>\<rparr>"

definition validateInput :: "string \<Rightarrow> int \<Rightarrow> int \<Rightarrow> string \<Rightarrow> bool" where
  "validateInput fp chars lns txt =
     (if fp = [] then False
      else if chars < 0 \<or> lns < 0 then False
      else if chars > 10000 \<or> lns > 1000 then False
      else if txt \<noteq> [] \<and> int (length txt) \<noteq> chars then False
      else True)"

definition updateStatisticsBatch :: "int \<Rightarrow> int \<Rightarrow> int \<Rightarrow> mt_state \<Rightarrow> mt_state" where
  "updateStatisticsBatch chars lns ts st =
     st\<lparr>statistics :=
          \<lparr>totalCharactersTyped = totalCharactersTyped (statistics st) + chars,
           totalLinesTyped = totalLinesTyped (statistics st) + lns,
           totalKeystrokes = totalKeystrokes (statistics st) + 1,
           lastTypingTime = ts\<rparr>\<rparr>"

subsection \<open>The flush\<close>

text \<open>\<^verbatim>\<open>reportEvents\<close> up to its first \<^verbatim>\<open>await\<close> (lines 194-208): the merged
  batch, the early return on an empty batch, the clearing of both queues and the payload
  handed to \<^verbatim>\<open>sendReport\<close>. \<open>None\<close>: the method returned at line 198.\<close>

definition mt_reportEvents_begin :: "mt_state \<Rightarrow> mt_payload option \<times> mt_state" where
  "mt_reportEvents_begin st =
     (let allEventsToReport = failedEvents st @ reportQueue st in
      if length allEventsToReport = 0 then (None, st)
      else
        (let st1 = st\<lparr>reportQueue := [], failedEvents := []\<rparr>
         in (Some \<lparr>events = allEventsToReport, stats = statistics st1\<rparr>, st1)))"

text \<open>\<^verbatim>\<open>reportEvents\<close> after \<^verbatim>\<open>await this.sendReport(...)\<close> has settled with \<open>r\<close>
  (lines 209-230): the reset on success, the \<^verbatim>\<open>catch\<close> block on a throw. The state
  is the one at that moment.\<close>

definition mt_reportEvents_settle ::
  "ManualTypingEvent list \<Rightarrow> send_result \<Rightarrow> mt_state \<Rightarrow> promise \<times> mt_state" where
  "mt_reportEvents_settle allEventsToReport r st =
     (case r of
        Returned \<Rightarrow> (Resolved, resetStatisticsAfterReport st)
      | Threw error \<Rightarrow>
          (let pushed = failedEvents st @ allEventsToReport;
               maxFailedEvents = batchSize (config st) * MAX_FAILED_EVENTS_MULTIPLIER
           in if int (length pushed) > maxFailedEvents then
                (let toDiscard = int (length pushed) - maxFailedEvents
                 in (Resolved, st\<lparr>failedEvents := drop (nat toDiscard) pushed\<rparr>))
              else (Resolved, st\<lparr>failedEvents := pushed\<rparr>)))"

text \<open>A whole run of \<^verbatim>\<open>reportEvents\<close> with nothing interleaved at its
  \<^verbatim>\<open>await\<close>s: how its promise settles, what the delivery did, and the final state.\<close>

definition mt_reportEvents ::
  "(nat \<Rightarrow> upload_result) \<Rightarrow> mt_state \<Rightarrow> promise \<times> mt_payload effect list \<times> mt_state" where
  "mt_reportEvents uploadLog st =
     (case mt_reportEvents_begin st of
        (None, st1) \<Rightarrow> (Resolved, [], st1)
      | (Some p, st1) \<Rightarrow>
          (let sent = mt_sendReport (config st1) uploadLog p;
               done = mt_reportEvents_settle (events p) (fst sent) st1
           in (fst done, snd sent, snd done)))"

text \<open>A call \<^verbatim>\<open>this.reportEvents()\<close> that is not awaited: the synchronous part runs,
  the delivery it started (if any) stays in flight.\<close>

definition mt_reportEvents_detached :: "mt_state \<Rightarrow> mt_state" where
  "mt_reportEvents_detached st =
     (case mt_reportEvents_begin st of
        (None, st1) \<Rightarrow> st1
      | (Some p, st1) \<Rightarrow> st1\<lparr>inFlight := inFlight st1 @ [p]\<rparr>)"

text \<open>The delivery in flight at index \<open>i\<close> runs to its end. \<^verbatim>\<open>sendReport\<close> reads the
  configuration while its loop runs; the model takes the configuration of that moment.\<close>

definition mt_deliver ::
  "nat \<Rightarrow> (nat \<Rightarrow> upload_result) \<Rightarrow> mt_state \<Rightarrow> promise \<times> mt_payload effect list \<times> mt_state" where
  "mt_deliver i uploadLog st =
     (if i < length (inFlight st) then
        (let p = inFlight st ! i;
             st1 = st\<lparr>inFlight := take i (inFlight st) @ drop (Suc i) (inFlight st)\<rparr>;
             sent = mt_sendReport (config st1) uploadLog p;
             done = mt_reportEvents_settle (events p) (fst sent) st1
         in (fst done, snd sent, snd done))
      else (Resolved, [], st))"

definition mt_queueForReporting :: "ManualTypingEvent \<Rightarrow> mt_state \<Rightarrow> mt_state" where
  "mt_queueForReporting event st =
     (let st1 = (if int (length (reportQueue st)) \<ge> MAX_QUEUE_SIZE
                 then st\<lparr>reportQueue := tl (reportQueue st)\<rparr> else st);
          st2 = st1\<lparr>reportQueue := reportQueue st1 @ [event]\<rparr>
      in if int (length (reportQueue st2)) \<ge> batchSize (config st2)
         then mt_reportEvents_detached st2 else st2)"

definition performPeriodicCleanup :: "int \<Rightarrow> mt_state \<Rightarrow> mt_state" where
  "performPeriodicCleanup now st =
     (if now - lastCleanupTime st < CLEANUP_INTERVAL then st
      else
        (let st1 = st\<lparr>lastCleanupTime := now\<rparr>;
             maxAge = 24 * 60 * 60 * 1000;
             validFailedEvents = filter (\<lambda>event. now - timestamp event < maxAge) (failedEvents st1)
         in if length validFailedEvents \<noteq> length (failedEvents st1)
            then st1\<lparr>failedEvents := validFailedEvents\<rparr> else st1))"

definition trackManualTyping ::
  "int \<Rightarrow> string \<Rightarrow> string \<Rightarrow> int \<Rightarrow> int \<Rightarrow> Position \<Rightarrow> string \<Rightarrow> mt_state \<Rightarrow> mt_state" where
  "trackManualTyping now fp ext chars lns pos txt st =
     (if \<not> validateInput fp chars lns txt then st
      else
        (let st1 = updateStatisticsBatch chars lns now st;
             event = \<lparr>ev_type = ''keystroke'', timestamp = now, filepath = fp,
                      fileExtension = ext, charactersAdded = chars, linesAdded = lns,
                      position = pos, ev_text = txt\<rparr>;
             st2 = mt_queueForReporting event st1
         in performPeriodicCleanup now st2))"

subsection \<open>Timers, configuration, life cycle\<close>

definition mt_startPeriodicReporting :: "mt_state \<Rightarrow> mt_state" where
  "mt_startPeriodicReporting st =
     (if reportEnabled (config st)
      then st\<lparr>reportTimer := Some (nextHandle st),
              timers := timers st @ [(nextHandle st, reportInterval (config st))],
              nextHandle := Suc (nextHandle st)\<rparr>
      else st)"

definition mt_merge_config :: "ManualTypingConfig \<Rightarrow> ManualTypingConfig_partial \<Rightarrow> ManualTypingConfig" where
  "mt_merge_config c p =
     \<lparr>enabled = (case p_enabled p of None \<Rightarrow> enabled c | Some v \<Rightarrow> v),
      reportEnabled = (case p_reportEnabled p of None \<Rightarrow> reportEnabled c | Some v \<Rightarrow> v),
      reportInterval = (case p_reportInterval p of None \<Rightarrow> reportInterval c | Some v \<Rightarrow> v),
      batchSize = (case p_batchSize p of None \<Rightarrow> batchSize c | Some v \<Rightarrow> v),
      retryAttempts = (case p_retryAttempts p of None \<Rightarrow> retryAttempts c | Some v \<Rightarrow> v),
      retryDelay = (case p_retryDelay p of None \<Rightarrow> retryDelay c | Some v \<Rightarrow> v),
      maxRetryDelay = (case p_maxRetryDelay p of None \<Rightarrow> maxRetryDelay c | Some v \<Rightarrow> v),
      requestTimeout = (case p_requestTimeout p of None \<Rightarrow> requestTimeout c | Some v \<Rightarrow> v)\<rparr>"

definition configure :: "ManualTypingConfig_partial \<Rightarrow> mt_state \<Rightarrow> mt_state" where
  "configure p st =
     (let st1 = st\<lparr>config := mt_merge_config (config st) p\<rparr>;
          st2 = (case reportTimer st1 of
                   None \<Rightarrow> st1
                 | Some h \<Rightarrow> st1\<lparr>timers := clearInterval h (timers st1)\<rparr>)
      in if reportEnabled (config st2) then mt_startPeriodicReporting st2 else st2)"

definition dispose :: "mt_state \<Rightarrow> mt_state" where
  "dispose st =
     (case reportTimer st of
        None \<Rightarrow> st
      | Some h \<Rightarrow> st\<lparr>timers := clearInterval h (timers st), reportTimer := None\<rparr>)"

text \<open>\<^verbatim>\<open>forceReport\<close> awaits \<^verbatim>\<open>reportEvents()\<close>: its promise settles as that one.\<close>

definition mt_forceReport ::
  "(nat \<Rightarrow> upload_result) \<Rightarrow> mt_state \<Rightarrow> promise \<times> mt_payload effect list \<times> mt_state" where
  "mt_forceReport uploadLog st = mt_reportEvents uploadLog st"

text \<open>The state after the constructor: the field initialisers, then
  \<^verbatim>\<open>startPeriodicReporting()\<close>.\<close>

definition mt_init :: mt_state where
  "mt_init =
     mt_startPeriodicReporting
       \<lparr>statistics = \<lparr>totalCharactersTyped = 0, totalLinesTyped = 0, totalKeystrokes = 0,
                      lastTypingTime = 0\<rparr>,
        config = DEFAULT_CONFIG, reportQueue = [], reportTimer = None, failedEvents = [],
        lastCleanupTime = 0, timers = [], nextHandle = 0, inFlight = []\<rparr>"

text \<open>Everything that can happen to the service: the public methods, the periodic timer
  firing (when its interval is registered), and a delivery in flight running to its end.\<close>

datatype mt_op =
    TrackManualTyping int string string int int Position string
  | ResetStatistics
  | Configure ManualTypingConfig_partial
  | ForceReport "nat \<Rightarrow> upload_result"
  | Dispose
  | TimerFired
  | Deliver nat "nat \<Rightarrow> upload_result"

fun mt_step :: "mt_state \<Rightarrow> mt_op \<Rightarrow> mt_state" where
  "mt_step st (TrackManualTyping now fp ext chars lns pos txt) =
     trackManualTyping now fp ext chars lns pos txt st"
| "mt_step st ResetStatistics = mt_resetStatistics st"
| "mt_step st (Configure p) = configure p st"
| "mt_step st (ForceReport uploadLog) = snd (snd (mt_forceReport uploadLog st))"
| "mt_step st Dispose = dispose st"
| "mt_step st TimerFired =
     (if timers st = [] then st else mt_reportEvents_detached st)"
| "mt_step st (Deliver i uploadLog) = snd (snd (mt_deliver i uploadLog st))"

definition mt_run :: "mt_op list \<Rightarrow> mt_state" where
  "mt_run ops = foldl mt_step mt_init ops"

section \<open>AutocompleteStatisticsService\<close>

record AutocompleteStatistics =
  tabAccepts :: nat
  escCancels :: nat
  totalSuggestions :: nat
  acceptanceRate :: rat
  cancelRate :: rat

datatype interaction_type = Accept | Cancel

text \<open>\<open>ie_timestamp\<close> is the instant that \<^verbatim>\<open>new Date().toISOString()\<close> renders.\<close>

record AutocompleteInteractionEvent =
  ie_type :: interaction_type
  completionId :: string
  ie_timestamp :: int
  ie_filepath :: string
  ie_fileExtension :: string
  modelName :: string
  modelProvider :: string
  completionLength :: int
  prefixLength :: int
  suggestionDisplayTime :: "int option"

text \<open>A value of the map \<^verbatim>\<open>pendingSuggestions\<close>.\<close>

record PendingSuggestion =
  displayTime :: int
  ps_completionId :: string
  ps_filepath :: string
  ps_fileExtension :: string
  ps_modelName :: string
  ps_modelProvider :: string
  ps_completionLength :: int
  ps_prefixLength :: int

record ReportConfig =
  rc_enabled :: bool
  rc_batchSize :: int
  rc_reportInterval :: int
  rc_retryAttempts :: int
  rc_retryDelay :: int

record ReportConfig_partial =
  rp_enabled :: "bool option"
  rp_batchSize :: "int option"
  rp_reportInterval :: "int option"
  rp_retryAttempts :: "int option"
  rp_retryDelay :: "int option"

type_synonym ac_payload = "(AutocompleteInteractionEvent, AutocompleteStatistics) payload"

text \<open>The JavaScript \<^verbatim>\<open>Map\<close> \<open>pendingSuggestions\<close> is an association list in insertion
  order: \<^verbatim>\<open>get\<close> is \<open>map_of\<close>, \<^verbatim>\<open>set\<close> is \<open>AList.update\<close> (a present key keeps its
  place, a new one goes last), \<^verbatim>\<open>delete\<close> is \<open>AList.delete\<close>. The last three fields
  are the runtime state, as for the other service.\<close>

record ac_state =
  ac_statistics :: AutocompleteStatistics
  pendingSuggestions :: "(string \<times> PendingSuggestion) list"
  reportConfig :: ReportConfig
  ac_reportQueue :: "AutocompleteInteractionEvent list"
  ac_reportTimer :: "nat option"
  ac_failedEvents :: "AutocompleteInteractionEvent list"
  ac_timers :: timer_table
  ac_nextHandle :: nat
  ac_inFlight :: "ac_payload list"

subsection \<open>Delivery with retries\<close>

text \<open>The loop of lines 969-989: every error is retried, after
  \<^verbatim>\<open>retryDelay * attempt\<close> milliseconds.\<close>

function ac_sendReport_loop ::
  "ReportConfig \<Rightarrow> (nat \<Rightarrow> upload_result) \<Rightarrow> 'p \<Rightarrow> nat \<Rightarrow> thrown
     \<Rightarrow> send_result \<times> 'p effect list" where
  "ac_sendReport_loop cfg uploadLog payload attempt lastError =
     (if int attempt \<le> rc_retryAttempts cfg then
        (case uploadLog attempt of
           UploadOk \<Rightarrow> (Returned, [Upload attempt payload])
         | UploadThrows error \<Rightarrow>
             (let waits = (if int attempt < rc_retryAttempts cfg
                           then [Wait (rc_retryDelay cfg * int attempt)] else []);
                  rest = ac_sendReport_loop cfg uploadLog payload (Suc attempt) error
              in (fst rest, Upload attempt payload # waits @ snd rest)))
      else (Threw lastError, []))"
  by pat_completeness auto
termination
  by (relation "measure (\<lambda>(cfg, uploadLog, payload, attempt, lastError).
        nat (rc_retryAttempts cfg + 1 - int attempt))") auto

declare ac_sendReport_loop.simps [simp del]

definition ac_sendReport ::
  "ReportConfig \<Rightarrow> (nat \<Rightarrow> upload_result) \<Rightarrow> 'p \<Rightarrow> send_result \<times> 'p effect list" where
  "ac_sendReport cfg uploadLog payload = ac_sendReport_loop cfg uploadLog payload 1 None"

subsection \<open>Statistics\<close>

definition updateRates :: "ac_state \<Rightarrow> ac_state" where
  "updateRates st =
     (let totalInteractions = tabAccepts (ac_statistics st) + escCancels (ac_statistics st) in
      if totalInteractions > 0 then
        st\<lparr>ac_statistics := (ac_statistics st)
             \<lparr>acceptanceRate := of_nat (tabAccepts (ac_statistics st)) / of_nat totalInteractions,
              cancelRate := of_nat (escCancels (ac_statistics st)) / of_nat totalInteractions\<rparr>\<rparr>
      else
        st\<lparr>ac_statistics := (ac_statistics st)\<lparr>acceptanceRate := 0, cancelRate := 0\<rparr>\<rparr>)"

definition ac_resetStatistics :: "ac_state \<Rightarrow> ac_state" where
  "ac_resetStatistics st =
     st\<lparr>ac_statistics := \<lparr>tabAccepts = 0, escCancels = 0, totalSuggestions = 0,
                           acceptanceRate = 0, cancelRate = 0\<rparr>,
        pendingSuggestions := []\<rparr>"

subsection \<open>The flush\<close>

text \<open>\<^verbatim>\<open>flushReportQueue\<close> up to its first \<^verbatim>\<open>await\<close> (lines 927-940).\<close>

definition ac_flushReportQueue_begin :: "ac_state \<Rightarrow> ac_payload option \<times> ac_state" where
  "ac_flushReportQueue_begin st =
     (let allEventsToReport = ac_failedEvents st @ ac_reportQueue st in
      if length allEventsToReport = 0 then (None, st)
      else
        (let st1 = st\<lparr>ac_reportQueue := [], ac_failedEvents := []\<rparr>
         in (Some \<lparr>events = allEventsToReport, stats = ac_statistics st1\<rparr>, st1)))"

text \<open>\<^verbatim>\<open>flushReportQueue\<close> after \<^verbatim>\<open>await this.sendReport(...)\<close> has settled with
  \<open>r\<close> (lines 941-960).\<close>

definition ac_flushReportQueue_settle ::
  "AutocompleteInteractionEvent list \<Rightarrow> send_result \<Rightarrow> ac_state \<Rightarrow> promise \<times> ac_state" where
  "ac_flushReportQueue_settle allEventsToReport r st =
     (case r of
        Returned \<Rightarrow> (Resolved, ac_resetStatistics st)
      | Threw error \<Rightarrow>
          (let pushed = ac_failedEvents st @ allEventsToReport;
               maxFailedEvents = rc_batchSize (reportConfig st) * 2
           in if int (length pushed) > maxFailedEvents then
                (let toDiscard = int (length pushed) - maxFailedEvents
                 in (Resolved, st\<lparr>ac_failedEvents := drop (nat toDiscard) pushed\<rparr>))
              else (Resolved, st\<lparr>ac_failedEvents := pushed\<rparr>)))"

definition ac_flushReportQueue ::
  "(nat \<Rightarrow> upload_result) \<Rightarrow> ac_state \<Rightarrow> promise \<times> ac_payload effect list \<times> ac_state" where
  "ac_flushReportQueue uploadLog st =
     (case ac_flushReportQueue_begin st of
        (None, st1) \<Rightarrow> (Resolved, [], st1)
      | (Some p, st1) \<Rightarrow>
          (let sent = ac_sendReport (reportConfig st1) uploadLog p;
               done = ac_flushReportQueue_settle (events p) (fst sent) st1
           in (fst done, snd sent, snd done)))"

definition ac_flushReportQueue_detached :: "ac_state \<Rightarrow> ac_state" where
  "ac_flushReportQueue_detached st =
     (case ac_flushReportQueue_begin st of
        (None, st1) \<Rightarrow> st1
      | (Some p, st1) \<Rightarrow> st1\<lparr>ac_inFlight := ac_inFlight st1 @ [p]\<rparr>)"

definition ac_deliver ::
  "nat \<Rightarrow> (nat \<Rightarrow> upload_result) \<Rightarrow> ac_state \<Rightarrow> promise \<times> ac_payload effect list \<times> ac_state" where
  "ac_deliver i uploadLog st =
     (if i < length (ac_inFlight st) then
        (let p = ac_inFlight st ! i;
             st1 = st\<lparr>ac_inFlight := take i (ac_inFlight st) @ drop (Suc i) (ac_inFlight st)\<rparr>;
             sent = ac_sendReport (reportConfig st1) uploadLog p;
             done = ac_flushReportQueue_settle (events p) (fst sent) st1
         in (fst done, snd sent, snd done))
      else (Resolved, [], st))"

definition ac_queueForReporting :: "AutocompleteInteractionEvent \<Rightarrow> ac_state \<Rightarrow> ac_state" where
  "ac_queueForReporting event st =
     (if \<not> rc_enabled (reportConfig st) then st
      else
        (let st1 = st\<lparr>ac_reportQueue := ac_reportQueue st @ [event]\<rparr>
         in if int (length (ac_reportQueue st1)) \<ge> rc_batchSize (reportConfig st1)
            then ac_flushReportQueue_detached st1 else st1))"

subsection \<open>The suggestion life cycle\<close>

definition trackSuggestionDisplayed ::
  "int \<Rightarrow> string \<Rightarrow> string \<Rightarrow> string \<Rightarrow> string \<Rightarrow> string \<Rightarrow> int \<Rightarrow> int \<Rightarrow> ac_state \<Rightarrow> ac_state" where
  "trackSuggestionDisplayed now cid fp ext mn mp cl pl st =
     updateRates
       (st\<lparr>ac_statistics := (ac_statistics st)
              \<lparr>totalSuggestions := totalSuggestions (ac_statistics st) + 1\<rparr>,
           pendingSuggestions :=
             AList.update cid
               \<lparr>displayTime = now, ps_completionId = cid, ps_filepath = fp,
                ps_fileExtension = ext, ps_modelName = mn, ps_modelProvider = mp,
                ps_completionLength = cl, ps_prefixLength = pl\<rparr>
               (pendingSuggestions st)\<rparr>)"

text \<open>The event built in \<^verbatim>\<open>trackAccept\<close> and in \<^verbatim>\<open>trackCancel\<close>.\<close>

definition interactionEvent ::
  "interaction_type \<Rightarrow> int \<Rightarrow> string \<Rightarrow> PendingSuggestion \<Rightarrow> AutocompleteInteractionEvent" where
  "interactionEvent ty now cid pending =
     \<lparr>ie_type = ty, completionId = cid, ie_timestamp = now, ie_filepath = ps_filepath pending,
      ie_fileExtension = ps_fileExtension pending, modelName = ps_modelName pending,
      modelProvider = ps_modelProvider pending,
      completionLength = ps_completionLength pending, prefixLength = ps_prefixLength pending,
      suggestionDisplayTime = Some (now - displayTime pending)\<rparr>"

text \<open>\<^verbatim>\<open>logInteraction\<close> only hands the event to the telemetry collaborator and is left
  out.\<close>

definition trackAccept :: "int \<Rightarrow> string \<Rightarrow> ac_state \<Rightarrow> ac_state" where
  "trackAccept now cid st =
     (case map_of (pendingSuggestions st) cid of
        None \<Rightarrow> st
      | Some pending \<Rightarrow>
          (let st1 = st\<lparr>ac_statistics := (ac_statistics st)
                          \<lparr>tabAccepts := tabAccepts (ac_statistics st) + 1\<rparr>,
                        pendingSuggestions := AList.delete cid (pendingSuggestions st)\<rparr>;
               st2 = ac_queueForReporting (interactionEvent Accept now cid pending) st1
           in updateRates st2))"

definition trackCancel :: "int \<Rightarrow> string \<Rightarrow> ac_state \<Rightarrow> ac_state" where
  "trackCancel now cid st =
     (case map_of (pendingSuggestions st) cid of
        None \<Rightarrow> st
      | Some pending \<Rightarrow>
          (let st1 = st\<lparr>ac_statistics := (ac_statistics st)
                          \<lparr>escCancels := escCancels (ac_statistics st) + 1\<rparr>,
                        pendingSuggestions := AList.delete cid (pendingSuggestions st)\<rparr>;
               st2 = ac_queueForReporting (interactionEvent Cancel now cid pending) st1
           in updateRates st2))"

definition cleanupPendingSuggestions :: "int \<Rightarrow> int \<Rightarrow> ac_state \<Rightarrow> ac_state" where
  "cleanupPendingSuggestions now maxAgeMs st =
     (let toRemove = map fst (filter (\<lambda>(cid, pending). now - displayTime pending > maxAgeMs)
                                (pendingSuggestions st))
      in fold (trackCancel now) toRemove st)"

subsection \<open>Timers, configuration, life cycle\<close>

definition ac_startPeriodicReporting :: "ac_state \<Rightarrow> ac_state" where
  "ac_startPeriodicReporting st =
     (if \<not> rc_enabled (reportConfig st) then st
      else st\<lparr>ac_reportTimer := Some (ac_nextHandle st),
              ac_timers := ac_timers st @ [(ac_nextHandle st, rc_reportInterval (reportConfig st))],
              ac_nextHandle := Suc (ac_nextHandle st)\<rparr>)"

definition ac_merge_config :: "ReportConfig \<Rightarrow> ReportConfig_partial \<Rightarrow> ReportConfig" where
  "ac_merge_config c p =
     \<lparr>rc_enabled = (case rp_enabled p of None \<Rightarrow> rc_enabled c | Some v \<Rightarrow> v),
      rc_batchSize = (case rp_batchSize p of None \<Rightarrow> rc_batchSize c | Some v \<Rightarrow> v),
      rc_reportInterval = (case rp_reportInterval p of None \<Rightarrow> rc_reportInterval c | Some v \<Rightarrow> v),
      rc_retryAttempts = (case rp_retryAttempts p of None \<Rightarrow> rc_retryAttempts c | Some v \<Rightarrow> v),
      rc_retryDelay = (case rp_retryDelay p of None \<Rightarrow> rc_retryDelay c | Some v \<Rightarrow> v)\<rparr>"

definition configureReporting :: "ReportConfig_partial \<Rightarrow> ac_state \<Rightarrow> ac_state" where
  "configureReporting p st =
     (let st1 = st\<lparr>reportConfig := ac_merge_config (reportConfig st) p\<rparr>;
          st2 = (case ac_reportTimer st1 of
                   None \<Rightarrow> st1
                 | Some h \<Rightarrow> st1\<lparr>ac_timers := clearInterval h (ac_timers st1)\<rparr>)
      in if rc_enabled (reportConfig st2) then ac_startPeriodicReporting st2 else st2)"

definition ac_forceReport ::
  "(nat \<Rightarrow> upload_result) \<Rightarrow> ac_state \<Rightarrow> promise \<times> ac_payload effect list \<times> ac_state" where
  "ac_forceReport uploadLog st = ac_flushReportQueue uploadLog st"

definition ac_init :: ac_state where
  "ac_init =
     ac_startPeriodicReporting
       \<lparr>ac_statistics = \<lparr>tabAccepts = 0, escCancels = 0, totalSuggestions = 0,
                         acceptanceRate = 0, cancelRate = 0\<rparr>,
        pendingSuggestions = [],
        reportConfig = \<lparr>rc_enabled = True, rc_batchSize = 10, rc_reportInterval = 5 * 60 * 1000,
                        rc_retryAttempts = 3, rc_retryDelay = 1000\<rparr>,
        ac_reportQueue = [], ac_reportTimer = None, ac_failedEvents = [],
        ac_timers = [], ac_nextHandle = 0, ac_inFlight = []\<rparr>"

datatype ac_op =
    TrackSuggestionDisplayed int string string string string string int int
  | TrackAccept int string
  | TrackCancel int string
  | CleanupPendingSuggestions int int
  | AcResetStatistics
  | ConfigureReporting ReportConfig_partial
  | AcForceReport "nat \<Rightarrow> upload_result"
  | AcTimerFired
  | AcDeliver nat "nat \<Rightarrow> upload_result"

fun ac_step :: "ac_state \<Rightarrow> ac_op \<Rightarrow> ac_state" where
  "ac_step st (TrackSuggestionDisplayed now cid fp ext mn mp cl pl) =
     trackSuggestionDisplayed now cid fp ext mn mp cl pl st"
| "ac_step st (TrackAccept now cid) = trackAccept now cid st"
| "ac_step st (TrackCancel now cid) = trackCancel now cid st"
| "ac_step st (CleanupPendingSuggestions now maxAgeMs) = cleanupPendingSuggestions now maxAgeMs st"
| "ac_step st AcResetStatistics = ac_resetStatistics st"
| "ac_step st (ConfigureReporting p) = configureReporting p st"
| "ac_step st (AcForceReport uploadLog) = snd (snd (ac_forceReport uploadLog st))"
| "ac_step st AcTimerFired =
     (if ac_timers st = [] then st else ac_flushReportQueue_detached st)"
| "ac_step st (AcDeliver i uploadLog) = snd (snd (ac_deliver i uploadLog st))"

definition ac_run :: "ac_op list \<Rightarrow> ac_state" where
  "ac_run ops = foldl ac_step ac_init ops"

text \<open>The relation between the two rates and the two counters that the specification asks
  for: each rate is the share of its counter in the resolutions, and both are 0 when nothing
  was resolved.\<close>

definition rates_consistent :: "AutocompleteStatistics \<Rightarrow> bool" where
  "rates_consistent s =
     (if tabAccepts s + escCancels s > 0
      then acceptanceRate s = of_nat (tabAccepts s) / of_nat (tabAccepts s + escCancels s) \<and>
           cancelRate s = of_nat (escCancels s) / of_nat (tabAccepts s + escCancels s)
      else acceptanceRate s = 0 \<and> cancelRate s = 0)"

section \<open>The retry loops\<close>

lemma mt_loop_retry_step:
  assumes "int a < retryAttempts cfg" and "up a = UploadThrows e" and "isRetryableError e"
  shows "mt_sendReport_loop cfg up p a lastE =
           (fst (mt_sendReport_loop cfg up p (Suc a) e),
            Upload a p # Wait (backoffDelay cfg a) # snd (mt_sendReport_loop cfg up p (Suc a) e))"
  using assms by (subst mt_sendReport_loop.simps) (simp add: Let_def)

lemma mt_loop_prefix:
  assumes "a \<le> k" and "int k \<le> retryAttempts cfg"
    and "\<forall>j. a \<le> j \<and> j < k \<longrightarrow> up j = UploadThrows (err j) \<and> isRetryableError (err j)"
  shows "mt_sendReport_loop cfg up p a lastE =
           (fst (mt_sendReport_loop cfg up p k (if a = k then lastE else err (k - 1))),
            concat (map (\<lambda>j. [Upload j p, Wait (backoffDelay cfg j)]) [a..<k]) @
              snd (mt_sendReport_loop cfg up p k (if a = k then lastE else err (k - 1))))"
  using assms
proof (induction "k - a" arbitrary: a lastE)
  case 0
  then show ?case by simp
next
  case (Suc n)
  then have lt: "a < k" by simp
  with Suc.prems have fail: "up a = UploadThrows (err a)" "isRetryableError (err a)"
    by auto
  from lt Suc.prems have more: "int a < retryAttempts cfg" by simp
  have ih: "mt_sendReport_loop cfg up p (Suc a) (err a) =
           (fst (mt_sendReport_loop cfg up p k (if Suc a = k then err a else err (k - 1))),
            concat (map (\<lambda>j. [Upload j p, Wait (backoffDelay cfg j)]) [Suc a..<k]) @
              snd (mt_sendReport_loop cfg up p k (if Suc a = k then err a else err (k - 1))))"
    using Suc.hyps(1)[of "Suc a" "err a"] Suc.hyps(2) Suc.prems lt by auto
  have same: "(if Suc a = k then err a else err (k - 1)) = err (k - 1)"
    by auto
  show ?case
    using lt by (simp add: mt_loop_retry_step[where up=up and e="err a", OF more fail] ih same upt_conv_Cons)
qed

lemma mt_loop_exhausted:
  "\<not> int a \<le> retryAttempts cfg \<Longrightarrow> mt_sendReport_loop cfg up p a lastE = (Threw lastE, [])"
  by (subst mt_sendReport_loop.simps) simp

lemma mt_loop_last_retryable:
  assumes "int k = retryAttempts cfg" and "up k = UploadThrows e" and "isRetryableError e"
  shows "mt_sendReport_loop cfg up p k lastE = (Threw e, [Upload k p])"
  using assms by (subst mt_sendReport_loop.simps) (simp add: Let_def mt_loop_exhausted)

lemma mt_loop_abort:
  assumes "int k \<le> retryAttempts cfg" and "up k = UploadThrows e" and "\<not> isRetryableError e"
  shows "mt_sendReport_loop cfg up p k lastE = (Threw e, [Upload k p])"
  using assms by (subst mt_sendReport_loop.simps) simp

lemma mt_loop_ok:
  assumes "int k \<le> retryAttempts cfg" and "up k = UploadOk"
  shows "mt_sendReport_loop cfg up p k lastE = (Returned, [Upload k p])"
  using assms by (subst mt_sendReport_loop.simps) simp

lemma ac_loop_retry_step:
  assumes "int a < rc_retryAttempts cfg" and "up a = UploadThrows e"
  shows "ac_sendReport_loop cfg up p a lastE =
           (fst (ac_sendReport_loop cfg up p (Suc a) e),
            Upload a p # Wait (rc_retryDelay cfg * int a) # snd (ac_sendReport_loop cfg up p (Suc a) e))"
  using assms by (subst ac_sendReport_loop.simps) (simp add: Let_def)

lemma ac_loop_prefix:
  assumes "a \<le> k" and "int k \<le> rc_retryAttempts cfg"
    and "\<forall>j. a \<le> j \<and> j < k \<longrightarrow> up j = UploadThrows (err j)"
  shows "ac_sendReport_loop cfg up p a lastE =
           (fst (ac_sendReport_loop cfg up p k (if a = k then lastE else err (k - 1))),
            concat (map (\<lambda>j. [Upload j p, Wait (rc_retryDelay cfg * int j)]) [a..<k]) @
              snd (ac_sendReport_loop cfg up p k (if a = k then lastE else err (k - 1))))"
  using assms
proof (induction "k - a" arbitrary: a lastE)
  case 0
  then show ?case by simp
next
  case (Suc n)
  then have lt: "a < k" by simp
  with Suc.prems have fail: "up a = UploadThrows (err a)"
    by auto
  from lt Suc.prems have more: "int a < rc_retryAttempts cfg" by simp
  have ih: "ac_sendReport_loop cfg up p (Suc a) (err a) =
           (fst (ac_sendReport_loop cfg up p k (if Suc a = k then err a else err (k - 1))),
            concat (map (\<lambda>j. [Upload j p, Wait (rc_retryDelay cfg * int j)]) [Suc a..<k]) @
              snd (ac_sendReport_loop cfg up p k (if Suc a = k then err a else err (k - 1))))"
    using Suc.hyps(1)[of "Suc a" "err a"] Suc.hyps(2) Suc.prems lt by auto
  have same: "(if Suc a = k then err a else err (k - 1)) = err (k - 1)"
    by auto
  show ?case
    using lt by (simp add: ac_loop_retry_step[where up=up and e="err a", OF more fail] ih same upt_conv_Cons)
qed

lemma ac_loop_exhausted:
  "\<not> int a \<le> rc_retryAttempts cfg \<Longrightarrow> ac_sendReport_loop cfg up p a lastE = (Threw lastE, [])"
  by (subst ac_sendReport_loop.simps) simp

lemma ac_loop_last:
  assumes "int k = rc_retryAttempts cfg" and "up k = UploadThrows e"
  shows "ac_sendReport_loop cfg up p k lastE = (Threw e, [Upload k p])"
  using assms by (subst ac_sendReport_loop.simps) (simp add: Let_def ac_loop_exhausted)

lemma mt_loop_head:
  "int a \<le> retryAttempts cfg \<Longrightarrow> \<exists>rest. snd (mt_sendReport_loop cfg up p a lastE) = Upload a p # rest"
  by (subst mt_sendReport_loop.simps) (simp add: Let_def split: upload_result.splits)

lemma ac_loop_head:
  "int a \<le> rc_retryAttempts cfg \<Longrightarrow> \<exists>rest. snd (ac_sendReport_loop cfg up p a lastE) = Upload a p # rest"
  by (subst ac_sendReport_loop.simps) (simp add: Let_def split: upload_result.splits)

lemma mt_sendReport_wait_then_next:
  assumes "\<forall>j. 1 \<le> j \<and> j \<le> k \<longrightarrow> up j = UploadThrows (err j) \<and> isRetryableError (err j)"
    and "int k < retryAttempts cfg"
  shows "\<exists>rest. snd (mt_sendReport cfg up p) =
           concat (map (\<lambda>j. [Upload j p, Wait (backoffDelay cfg j)]) [1..<Suc k]) @
             Upload (Suc k) p # rest"
proof -
  have pre: "\<forall>j. 1 \<le> j \<and> j < Suc k \<longrightarrow> up j = UploadThrows (err j) \<and> isRetryableError (err j)"
    using assms(1) by auto
  have le: "int (Suc k) \<le> retryAttempts cfg" using assms(2) by simp
  obtain rest where "snd (mt_sendReport_loop cfg up p (Suc k) (if 1 = Suc k then None else err (Suc k - 1)))
      = Upload (Suc k) p # rest"
    using mt_loop_head[where up=up and p=p and lastE="if 1 = Suc k then None else err (Suc k - 1)", OF le] by blast
  then show ?thesis
    unfolding mt_sendReport_def
    by (subst mt_loop_prefix[where k="Suc k" and err=err, OF _ le pre]) auto
qed

lemma mt_sendReport_all_fail:
  assumes "\<forall>j. 1 \<le> j \<and> j \<le> n \<longrightarrow> up j = UploadThrows (err j) \<and> isRetryableError (err j)"
    and "1 \<le> n" and "retryAttempts cfg = int n"
  shows "mt_sendReport cfg up p =
           (Threw (err n),
            concat (map (\<lambda>j. [Upload j p, Wait (backoffDelay cfg j)]) [1..<n]) @ [Upload n p])"
proof -
  have pre: "\<forall>j. 1 \<le> j \<and> j < n \<longrightarrow> up j = UploadThrows (err j) \<and> isRetryableError (err j)"
    using assms(1) by auto
  have le: "int n \<le> retryAttempts cfg" using assms(3) by simp
  have lastf: "up n = UploadThrows (err n)" "isRetryableError (err n)"
    using assms(1,2) by auto
  show ?thesis
    unfolding mt_sendReport_def
    by (subst mt_loop_prefix[where k=n and err=err, OF assms(2) le pre])
       (simp add: mt_loop_last_retryable[where up=up and e="err n", OF assms(3)[symmetric] lastf])
qed

lemma ac_sendReport_wait_then_next:
  assumes "\<forall>j. 1 \<le> j \<and> j \<le> k \<longrightarrow> up j = UploadThrows (err j)"
    and "int k < rc_retryAttempts cfg"
  shows "\<exists>rest. snd (ac_sendReport cfg up p) =
           concat (map (\<lambda>j. [Upload j p, Wait (rc_retryDelay cfg * int j)]) [1..<Suc k]) @
             Upload (Suc k) p # rest"
proof -
  have pre: "\<forall>j. 1 \<le> j \<and> j < Suc k \<longrightarrow> up j = UploadThrows (err j)"
    using assms(1) by auto
  have le: "int (Suc k) \<le> rc_retryAttempts cfg" using assms(2) by simp
  obtain rest where "snd (ac_sendReport_loop cfg up p (Suc k) (if 1 = Suc k then None else err (Suc k - 1)))
      = Upload (Suc k) p # rest"
    using ac_loop_head[where up=up and p=p and lastE="if 1 = Suc k then None else err (Suc k - 1)", OF le] by blast
  then show ?thesis
    unfolding ac_sendReport_def
    by (subst ac_loop_prefix[where k="Suc k" and err=err, OF _ le pre]) auto
qed

lemma ac_sendReport_all_fail:
  assumes "\<forall>j. 1 \<le> j \<and> j \<le> n \<longrightarrow> up j = UploadThrows (err j)"
    and "1 \<le> n" and "rc_retryAttempts cfg = int n"
  shows "ac_sendReport cfg up p =
           (Threw (err n),
            concat (map (\<lambda>j. [Upload j p, Wait (rc_retryDelay cfg * int j)]) [1..<n]) @ [Upload n p])"
proof -
  have pre: "\<forall>j. 1 \<le> j \<and> j < n \<longrightarrow> up j = UploadThrows (err j)"
    using assms(1) by auto
  have le: "int n \<le> rc_retryAttempts cfg" using assms(3) by simp
  have lastf: "up n = UploadThrows (err n)"
    using assms(1,2) by auto
  show ?thesis
    unfolding ac_sendReport_def
    by (subst ac_loop_prefix[where k=n and err=err, OF assms(2) le pre])
       (simp add: ac_loop_last[where up=up and e="err n", OF assms(3)[symmetric] lastf])
qed

lemma mt_sendReport_abort:
  assumes "\<forall>j. 1 \<le> j \<and> j < k \<longrightarrow> up j = UploadThrows (err j) \<and> isRetryableError (err j)"
    and "1 \<le> k" and "int k \<le> retryAttempts cfg"
    and "up k = UploadThrows e" and "\<not> isRetryableError e"
  shows "mt_sendReport cfg up p =
           (Threw e,
            concat (map (\<lambda>j. [Upload j p, Wait (backoffDelay cfg j)]) [1..<k]) @ [Upload k p])"
  unfolding mt_sendReport_def
  by (subst mt_loop_prefix[where k=k and err=err, OF assms(2,3,1)])
     (simp add: mt_loop_abort[where up=up and e=e, OF assms(3,4,5)])

section \<open>Error classification, in closed form\<close>

lemma startsWith_iff: "startsWith s t \<longleftrightarrow> (\<exists>v. s = t @ v)"
  by (induction s t rule: startsWith.induct) auto

lemma includes_str_iff: "includes_str s t \<longleftrightarrow> (\<exists>u v. s = u @ t @ v)"
proof (induction s)
  case Nil
  then show ?case by auto
next
  case (Cons d s)
  show ?case
  proof
    assume "includes_str (d # s) t"
    then consider "startsWith (d # s) t" | "includes_str s t" by auto
    then show "\<exists>u v. d # s = u @ t @ v"
    proof cases
      case 1
      then obtain v where "d # s = [] @ t @ v" by (auto simp: startsWith_iff)
      then show ?thesis by blast
    next
      case 2
      then obtain u v where "s = u @ t @ v" using Cons.IH by blast
      then have "d # s = (d # u) @ t @ v" by simp
      then show ?thesis by blast
    qed
  next
    assume "\<exists>u v. d # s = u @ t @ v"
    then obtain u v where e: "d # s = u @ t @ v" by blast
    show "includes_str (d # s) t"
    proof (cases u)
      case Nil
      with e have "startsWith (d # s) t" by (auto simp: startsWith_iff)
      then show ?thesis by simp
    next
      case (Cons a u')
      with e have "s = u' @ t @ v" by simp
      then have "includes_str s t" using Cons.IH by blast
      then show ?thesis by simp
    qed
  qed
qed

lemma lowered_tokens:
  "map toLowerCase RETRYABLE_ERRORS =
     [''aborterror'', ''timeout'', ''network'', ''econnreset'', ''enotfound'', ''econnrefused'']"
  by (simp add: RETRYABLE_ERRORS_def toLowerCase_def toLowerCase_char_def)

lemma isRetryableError_iff:
  "isRetryableError (Some e) \<longleftrightarrow>
     err_name e \<in> {''AbortError'', ''timeout'', ''network'', ''ECONNRESET'', ''ENOTFOUND'', ''ECONNREFUSED''} \<or>
     (\<exists>t \<in> {''aborterror'', ''timeout'', ''network'', ''econnreset'', ''enotfound'', ''econnrefused''}.
        \<exists>u v. toLowerCase (err_message e) = u @ t @ v)"
proof -
  have "list_ex (\<lambda>r. includes_str (toLowerCase (err_message e)) (toLowerCase r)) RETRYABLE_ERRORS
      \<longleftrightarrow> (\<exists>t \<in> set (map toLowerCase RETRYABLE_ERRORS). includes_str (toLowerCase (err_message e)) t)"
    by (simp add: list_ex_iff)
  also have "\<dots> \<longleftrightarrow> (\<exists>t \<in> {''aborterror'', ''timeout'', ''network'', ''econnreset'', ''enotfound'', ''econnrefused''}.
        \<exists>u v. toLowerCase (err_message e) = u @ t @ v)"
    unfolding lowered_tokens includes_str_iff by simp
  finally show ?thesis
    by (simp add: isRetryableError_def Let_def RETRYABLE_ERRORS_def)
qed

section \<open>Claim C2: the back-off between attempts\<close>

text \<open>
  Claim C2, as the code has it. In \<^verbatim>\<open>ManualTypingStatisticsService.sendReport\<close>, when the
  attempts \<open>1..k\<close> failed with retryable errors and \<open>k\<close> is below \<open>retryAttempts\<close>, each
  attempt \<open>j \<le> k\<close> is followed by a wait of exactly
  \<open>min (retryDelay * 2 ^ (j - 1)) maxRetryDelay\<close> and then by attempt \<open>j + 1\<close>; when all
  \<open>retryAttempts = k \<ge> 1\<close> attempts failed so, the error of the last attempt is thrown and
  no wait follows the last attempt. In \<^verbatim>\<open>AutocompleteStatisticsService.sendReport\<close> the
  same holds for failures of any kind, with the wait \<open>retryDelay * j\<close>: linear, and
  without a ceiling.
\<close>

theorem C2_backoff_delays:
  "((\<forall>j. 1 \<le> j \<and> j \<le> k \<longrightarrow> up j = UploadThrows (err j) \<and> isRetryableError (err j)) \<and>
       int k < retryAttempts cfg \<longrightarrow>
     (\<exists>rest. snd (mt_sendReport cfg up p) =
        concat (map (\<lambda>j. [Upload j p,
                           Wait (min (retryDelay cfg * 2 ^ (j - 1)) (maxRetryDelay cfg))])
                  [1..<Suc k]) @ Upload (Suc k) p # rest)) \<and>
   ((\<forall>j. 1 \<le> j \<and> j \<le> k \<longrightarrow> up j = UploadThrows (err j) \<and> isRetryableError (err j)) \<and>
       1 \<le> k \<and> retryAttempts cfg = int k \<longrightarrow>
     mt_sendReport cfg up p =
       (Threw (err k),
        concat (map (\<lambda>j. [Upload j p,
                           Wait (min (retryDelay cfg * 2 ^ (j - 1)) (maxRetryDelay cfg))])
                  [1..<k]) @ [Upload k p])) \<and>
   ((\<forall>j. 1 \<le> j \<and> j \<le> k \<longrightarrow> up j = UploadThrows (err j)) \<and> int k < rc_retryAttempts rc \<longrightarrow>
     (\<exists>rest. snd (ac_sendReport rc up p) =
        concat (map (\<lambda>j. [Upload j p, Wait (rc_retryDelay rc * int j)]) [1..<Suc k]) @
          Upload (Suc k) p # rest)) \<and>
   ((\<forall>j. 1 \<le> j \<and> j \<le> k \<longrightarrow> up j = UploadThrows (err j)) \<and>
       1 \<le> k \<and> rc_retryAttempts rc = int k \<longrightarrow>
     ac_sendReport rc up p =
       (Threw (err k),
        concat (map (\<lambda>j. [Upload j p, Wait (rc_retryDelay rc * int j)]) [1..<k]) @ [Upload k p]))"
  using mt_sendReport_wait_then_next[of k up err cfg p] mt_sendReport_all_fail[of k up err cfg p]
    ac_sendReport_wait_then_next[of k up err rc p] ac_sendReport_all_fail[of k up err rc p]
  unfolding backoffDelay_def by blast

text \<open>The scenario of the specification (3 attempts, base delay 1000, ceiling 30000) in
  both services: the delays are 1000 and 2000, and the third failure is thrown.\<close>

theorem C2_backoff_delays_witness:
  "mt_sendReport DEFAULT_CONFIG
     (\<lambda>k. UploadThrows (Some (JsError ''TimeoutError'' ''The operation was aborted due to timeout''))) () =
     (Threw (Some (JsError ''TimeoutError'' ''The operation was aborted due to timeout'')),
      [Upload 1 (), Wait 1000, Upload 2 (), Wait 2000, Upload 3 ()]) \<and>
   (\<exists>rest. snd (mt_sendReport DEFAULT_CONFIG
     (\<lambda>k. UploadThrows (Some (JsError ''TimeoutError'' ''The operation was aborted due to timeout''))) ()) =
      [Upload 1 (), Wait 1000, Upload 2 (), Wait 2000, Upload 3 ()] @ rest) \<and>
   ac_sendReport (reportConfig ac_init)
     (\<lambda>k. UploadThrows (Some (JsError ''Error'' ''HTTP 500: Internal Server Error''))) () =
     (Threw (Some (JsError ''Error'' ''HTTP 500: Internal Server Error'')),
      [Upload 1 (), Wait 1000, Upload 2 (), Wait 2000, Upload 3 ()]) \<and>
   (\<exists>rest. snd (ac_sendReport (reportConfig ac_init)
     (\<lambda>k. UploadThrows (Some (JsError ''Error'' ''HTTP 500: Internal Server Error''))) ()) =
      [Upload 1 (), Wait 1000, Upload 2 (), Wait 2000, Upload 3 ()] @ rest)"
proof -
  let ?T = "Some (JsError ''TimeoutError'' ''The operation was aborted due to timeout'')"
  let ?H = "Some (JsError ''Error'' ''HTTP 500: Internal Server Error'')"
  have r: "isRetryableError ?T"
    by (simp add: isRetryableError_def RETRYABLE_ERRORS_def toLowerCase_def toLowerCase_char_def)
  have c: "retryAttempts DEFAULT_CONFIG = 3" "retryDelay DEFAULT_CONFIG = 1000"
    "maxRetryDelay DEFAULT_CONFIG = 30000"
    by (simp_all add: DEFAULT_CONFIG_def)
  have a: "rc_retryAttempts (reportConfig ac_init) = 3" "rc_retryDelay (reportConfig ac_init) = 1000"
    by (simp_all add: ac_init_def ac_startPeriodicReporting_def)
  have u2: "[1..<Suc 2] = [1, 2]" "[1..<3] = [1, 2::nat]"
    by (simp_all add: upt_rec)
  from C2_backoff_delays[of 3 "\<lambda>k. UploadThrows ?T" "\<lambda>k. ?T" DEFAULT_CONFIG "()" "reportConfig ac_init"]
  have "mt_sendReport DEFAULT_CONFIG (\<lambda>k. UploadThrows ?T) () =
     (Threw ?T, [Upload 1 (), Wait 1000, Upload 2 (), Wait 2000, Upload 3 ()])"
    using r c u2 by simp
  moreover
  from C2_backoff_delays[of 2 "\<lambda>k. UploadThrows ?T" "\<lambda>k. ?T" DEFAULT_CONFIG "()" "reportConfig ac_init"]
  have "\<exists>rest. snd (mt_sendReport DEFAULT_CONFIG (\<lambda>k. UploadThrows ?T) ()) =
      [Upload 1 (), Wait 1000, Upload 2 (), Wait 2000, Upload 3 ()] @ rest"
    using r c u2 by simp
  moreover
  from C2_backoff_delays[of 3 "\<lambda>k. UploadThrows ?H" "\<lambda>k. ?H" DEFAULT_CONFIG "()" "reportConfig ac_init"]
  have "ac_sendReport (reportConfig ac_init) (\<lambda>k. UploadThrows ?H) () =
     (Threw ?H, [Upload 1 (), Wait 1000, Upload 2 (), Wait 2000, Upload 3 ()])"
    using a u2 by simp
  moreover
  from C2_backoff_delays[of 2 "\<lambda>k. UploadThrows ?H" "\<lambda>k. ?H" DEFAULT_CONFIG "()" "reportConfig ac_init"]
  have "\<exists>rest. snd (ac_sendReport (reportConfig ac_init) (\<lambda>k. UploadThrows ?H) ()) =
      [Upload 1 (), Wait 1000, Upload 2 (), Wait 2000, Upload 3 ()] @ rest"
    using a u2 by simp
  ultimately show ?thesis by blast
qed

text \<open>With 4 attempts and a base delay of 1000 the autocomplete service waits 3000 after
  the third failure, where the exponential rule gives 4000.\<close>

theorem C2_counterexample:
  "snd (ac_sendReport
          \<lparr>rc_enabled = True, rc_batchSize = 10, rc_reportInterval = 300000,
           rc_retryAttempts = 4, rc_retryDelay = 1000\<rparr>
          (\<lambda>k. UploadThrows (Some (JsError ''TimeoutError'' ''The operation was aborted due to timeout'')))
          ()) =
     [Upload 1 (), Wait 1000, Upload 2 (), Wait 2000, Upload 3 (), Wait 3000, Upload 4 ()] \<and>
   min (1000 * 2 ^ (3 - 1)) (30000 :: int) \<noteq> 3000"
  by (simp add: ac_sendReport_def ac_sendReport_loop.simps)

section \<open>Claim C3: which errors are retried\<close>

lemma mt_loop_upload_reached:
  "Upload j q \<in> set (snd (mt_sendReport_loop cfg up p a lastE)) \<Longrightarrow>
     q = p \<and> a \<le> j \<and> int j \<le> retryAttempts cfg \<and>
     (\<forall>i. a \<le> i \<and> i < j \<longrightarrow> (\<exists>y. up i = UploadThrows y \<and> isRetryableError y))"
proof (induction cfg up p a lastE rule: mt_sendReport_loop.induct)
  case (1 cfg up p a lastE)
  show ?case
  proof (cases "int a \<le> retryAttempts cfg")
    case False
    with "1.prems" show ?thesis by (simp add: mt_loop_exhausted)
  next
    case le: True
    show ?thesis
    proof (cases "up a")
      case UploadOk
      with le "1.prems" show ?thesis by (auto simp: mt_loop_ok[where up=up])
    next
      case (UploadThrows x)
      show ?thesis
      proof (cases "isRetryableError x")
        case False
        with le UploadThrows "1.prems" show ?thesis
          by (auto simp: mt_loop_abort[where up=up and e=x])
      next
        case True
        have unf: "snd (mt_sendReport_loop cfg up p a lastE) =
                Upload a p # (if int a < retryAttempts cfg then [Wait (backoffDelay cfg a)] else []) @
                  snd (mt_sendReport_loop cfg up p (Suc a) x)"
          using le UploadThrows True by (subst mt_sendReport_loop.simps) (simp add: Let_def)
        from "1.prems" have "Upload j q = Upload a p \<or>
            Upload j q \<in> set (snd (mt_sendReport_loop cfg up p (Suc a) x))"
          unfolding unf by (auto split: if_splits)
        then show ?thesis
        proof
          assume "Upload j q = Upload a p"
          with le show ?thesis by auto
        next
          assume "Upload j q \<in> set (snd (mt_sendReport_loop cfg up p (Suc a) x))"
          then have ih: "q = p \<and> Suc a \<le> j \<and> int j \<le> retryAttempts cfg \<and>
              (\<forall>i. Suc a \<le> i \<and> i < j \<longrightarrow> (\<exists>y. up i = UploadThrows y \<and> isRetryableError y))"
            using "1.IH"[OF le UploadThrows _ refl] True by simp
          have "\<exists>y. up i = UploadThrows y \<and> isRetryableError y" if "a \<le> i" "i < j" for i
          proof (cases "i = a")
            case True
            then show ?thesis using UploadThrows \<open>isRetryableError x\<close> by simp
          next
            case False
            with that ih show ?thesis by auto
          qed
          with ih show ?thesis by auto
        qed
      qed
    qed
  qed
qed


text \<open>
  Claim C3, as the code has it. \<^verbatim>\<open>isRetryableError\<close> holds exactly when the error is an
  object whose name is one of the six entries of \<^verbatim>\<open>RETRYABLE_ERRORS\<close> (\<^verbatim>\<open>AbortError\<close>,
  \<^verbatim>\<open>timeout\<close>, \<^verbatim>\<open>network\<close>, \<^verbatim>\<open>ECONNRESET\<close>, \<^verbatim>\<open>ENOTFOUND\<close>, \<^verbatim>\<open>ECONNREFUSED\<close>) or
  whose lower-cased message contains one of them in lower case. In
  \<^verbatim>\<open>ManualTypingStatisticsService.sendReport\<close> a non-retryable error on attempt \<open>k\<close> is
  thrown at once: attempt \<open>k\<close> is the last effect, no wait and no attempt follows; and
  attempt \<open>k + 1\<close> is made only after a retryable failure of attempt \<open>k\<close>.
  \<^verbatim>\<open>AutocompleteStatisticsService.sendReport\<close> classifies nothing: below the attempt limit
  every failure is followed by the wait and the next attempt.
\<close>

theorem C3_retry_classification:
  "\<not> isRetryableError None \<and>
   (isRetryableError (Some e) \<longleftrightarrow>
      err_name e \<in> {''AbortError'', ''timeout'', ''network'',
                      ''ECONNRESET'', ''ENOTFOUND'', ''ECONNREFUSED''} \<or>
      (\<exists>t \<in> {''aborterror'', ''timeout'', ''network'',
                ''econnreset'', ''enotfound'', ''econnrefused''}.
         \<exists>u v. toLowerCase (err_message e) = u @ t @ v)) \<and>
   ((\<forall>j. 1 \<le> j \<and> j < k \<longrightarrow> up j = UploadThrows (err j) \<and> isRetryableError (err j)) \<and>
      1 \<le> k \<and> int k \<le> retryAttempts cfg \<and> up k = UploadThrows x \<and> \<not> isRetryableError x \<longrightarrow>
    mt_sendReport cfg up p =
      (Threw x,
       concat (map (\<lambda>j. [Upload j p, Wait (backoffDelay cfg j)]) [1..<k]) @ [Upload k p])) \<and>
   (Upload (Suc k) q \<in> set (snd (mt_sendReport cfg up p)) \<and> 1 \<le> k \<longrightarrow>
      (\<exists>y. up k = UploadThrows y \<and> isRetryableError y)) \<and>
   ((\<forall>j. 1 \<le> j \<and> j \<le> k \<longrightarrow> up j = UploadThrows (err j)) \<and> int k < rc_retryAttempts rc \<longrightarrow>
      (\<exists>rest. snd (ac_sendReport rc up p) =
         concat (map (\<lambda>j. [Upload j p, Wait (rc_retryDelay rc * int j)]) [1..<Suc k]) @
           Upload (Suc k) p # rest))"
proof -
  have a: "\<not> isRetryableError None"
    by (simp add: isRetryableError_def)
  have d: "\<exists>y. up k = UploadThrows y \<and> isRetryableError y"
    if "Upload (Suc k) q \<in> set (snd (mt_sendReport cfg up p))" "1 \<le> k"
    using mt_loop_upload_reached[OF that(1)[unfolded mt_sendReport_def]] that(2) by auto
  show ?thesis
    using a isRetryableError_iff[of e] mt_sendReport_abort[of k up err cfg x p] d
      ac_sendReport_wait_then_next[of k up err rc p]
    by blast
qed

text \<open>A refused connection is retried, the HTTP 401 that follows is thrown at once by the
  typing service, and retried to the end by the autocomplete service.\<close>

theorem C3_retry_classification_witness:
  "mt_sendReport DEFAULT_CONFIG
     (\<lambda>k. if k = 1 then UploadThrows (Some (JsError ''Error'' ''connect ECONNREFUSED 10.0.0.1:443''))
           else UploadThrows (Some (JsError ''Error'' ''HTTP 401: Unauthorized''))) () =
     (Threw (Some (JsError ''Error'' ''HTTP 401: Unauthorized'')),
      [Upload 1 (), Wait 1000, Upload 2 ()]) \<and>
   isRetryableError (Some (JsError ''Error'' ''connect ECONNREFUSED 10.0.0.1:443'')) \<and>
   \<not> isRetryableError (Some (JsError ''Error'' ''HTTP 401: Unauthorized'')) \<and>
   (\<exists>rest. snd (ac_sendReport (reportConfig ac_init)
        (\<lambda>k. UploadThrows (Some (JsError ''Error'' ''HTTP 401: Unauthorized''))) ()) =
      [Upload 1 (), Wait 1000, Upload 2 (), Wait 2000, Upload 3 ()] @ rest)"
proof -
  let ?R = "Some (JsError ''Error'' ''connect ECONNREFUSED 10.0.0.1:443'')"
  let ?H = "Some (JsError ''Error'' ''HTTP 401: Unauthorized'')"
  let ?up = "\<lambda>k::nat. if k = 1 then UploadThrows ?R else UploadThrows ?H"
  have r: "isRetryableError ?R"
    by (simp add: isRetryableError_def RETRYABLE_ERRORS_def toLowerCase_def toLowerCase_char_def)
  have h: "\<not> isRetryableError ?H"
    by (simp add: isRetryableError_def RETRYABLE_ERRORS_def toLowerCase_def toLowerCase_char_def)
  have c: "retryAttempts DEFAULT_CONFIG = 3" "backoffDelay DEFAULT_CONFIG 1 = 1000"
    by (simp_all add: DEFAULT_CONFIG_def backoffDelay_def)
  have a: "rc_retryAttempts (reportConfig ac_init) = 3" "rc_retryDelay (reportConfig ac_init) = 1000"
    by (simp_all add: ac_init_def ac_startPeriodicReporting_def)
  have u2: "[1..<Suc 2] = [1, 2]" "[1..<2] = [1::nat]"
    by (simp_all add: upt_rec)
  note A = C3_retry_classification[where e="JsError ''Error'' ''HTTP 401: Unauthorized''" and k=2
      and up="?up" and err="\<lambda>k. ?R" and cfg=DEFAULT_CONFIG and x="?H" and p="()" and q="()"
      and rc="reportConfig ac_init"]
  note B = C3_retry_classification[where e="JsError ''Error'' ''connect ECONNREFUSED 10.0.0.1:443''"
      and k=1 and up="?up" and err="\<lambda>k. ?R" and cfg=DEFAULT_CONFIG and x="?H" and p="()"
      and q="()" and rc="reportConfig ac_init"]
  note C = C3_retry_classification[where e="JsError ''Error'' ''HTTP 401: Unauthorized''" and k=2
      and up="\<lambda>k. UploadThrows ?H" and err="\<lambda>k. ?H" and cfg=DEFAULT_CONFIG and x="?H"
      and p="()" and q="()" and rc="reportConfig ac_init"]
  from A[THEN conjunct2, THEN conjunct2, THEN conjunct1]
  have m: "mt_sendReport DEFAULT_CONFIG ?up () = (Threw ?H, [Upload 1 (), Wait 1000, Upload 2 ()])"
    using r h c u2 by simp
  from B[THEN conjunct2, THEN conjunct2, THEN conjunct2, THEN conjunct1]
  have "\<exists>y. ?up 1 = UploadThrows y \<and> isRetryableError y"
    using m by simp
  then have r': "isRetryableError ?R" by simp
  from C[THEN conjunct2, THEN conjunct2, THEN conjunct2, THEN conjunct2]
  have "\<exists>rest. snd (ac_sendReport (reportConfig ac_init) (\<lambda>k. UploadThrows ?H) ()) =
      [Upload 1 (), Wait 1000, Upload 2 (), Wait 2000, Upload 3 ()] @ rest"
    using a u2 by simp
  with m r' h show ?thesis by blast
qed

text \<open>An error that only mentions a network is retried although it is no timeout,
  connection-reset, host-not-found or connection-refused error and names none of them; and
  the autocomplete service makes all three attempts on a non-retryable HTTP 401.\<close>

theorem C3_counterexample:
  "isRetryableError (Some (JsError ''Error'' ''Network response was not ok'')) \<and>
   ''Error'' \<notin> {''AbortError'', ''TimeoutError'', ''timeout'', ''ECONNRESET'', ''ENOTFOUND'',
                  ''ECONNREFUSED''} \<and>
   \<not> list_ex (includes_str (toLowerCase ''Network response was not ok''))
        [''aborterror'', ''timeouterror'', ''timeout'', ''econnreset'', ''enotfound'',
         ''econnrefused''] \<and>
   \<not> isRetryableError (Some (JsError ''Error'' ''HTTP 401: Unauthorized'')) \<and>
   ac_sendReport \<lparr>rc_enabled = True, rc_batchSize = 10, rc_reportInterval = 300000,
                  rc_retryAttempts = 3, rc_retryDelay = 1000\<rparr>
     (\<lambda>k. UploadThrows (Some (JsError ''Error'' ''HTTP 401: Unauthorized''))) () =
     (Threw (Some (JsError ''Error'' ''HTTP 401: Unauthorized'')),
      [Upload 1 (), Wait 1000, Upload 2 (), Wait 2000, Upload 3 ()])"
  by (simp add: isRetryableError_def RETRYABLE_ERRORS_def toLowerCase_def toLowerCase_char_def
      ac_sendReport_def ac_sendReport_loop.simps)

section \<open>The flush, step by step\<close>

lemma drop_excess:
  "drop (nat (int (length xs) - m)) xs = drop (length xs - nat m) xs"
proof (cases "0 \<le> m")
  case True
  then have "nat (int (length xs) - m) = length xs - nat m" by linarith
  then show ?thesis by simp
next
  case False
  then have "length xs \<le> nat (int (length xs) - m)" "nat m = 0" by linarith+
  then show ?thesis by simp
qed

lemma mt_begin_empty:
  "failedEvents st @ reportQueue st = [] \<Longrightarrow> mt_reportEvents_begin st = (None, st)"
  by (simp add: mt_reportEvents_begin_def)

lemma mt_begin_nonempty:
  "failedEvents st @ reportQueue st \<noteq> [] \<Longrightarrow>
     mt_reportEvents_begin st =
       (Some \<lparr>events = failedEvents st @ reportQueue st, stats = statistics st\<rparr>,
        st\<lparr>reportQueue := [], failedEvents := []\<rparr>)"
  by (simp add: mt_reportEvents_begin_def Let_def)

lemma mt_begin_cleared:
  "reportQueue (snd (mt_reportEvents_begin st)) = [] \<and>
   failedEvents (snd (mt_reportEvents_begin st)) = []"
  by (cases "failedEvents st @ reportQueue st = []")
     (simp_all add: mt_begin_empty mt_begin_nonempty del: append_is_Nil_conv, simp)

lemma mt_reportEvents_empty:
  "failedEvents st @ reportQueue st = [] \<Longrightarrow> mt_reportEvents up st = (Resolved, [], st)"
  by (simp add: mt_reportEvents_def mt_begin_empty del: append_is_Nil_conv)

lemma mt_reportEvents_nonempty:
  assumes "failedEvents st @ reportQueue st \<noteq> []"
  shows "mt_reportEvents up st =
     (fst (mt_reportEvents_settle (failedEvents st @ reportQueue st)
             (fst (mt_sendReport (config st) up
                     \<lparr>events = failedEvents st @ reportQueue st, stats = statistics st\<rparr>))
             (st\<lparr>reportQueue := [], failedEvents := []\<rparr>)),
      snd (mt_sendReport (config st) up
             \<lparr>events = failedEvents st @ reportQueue st, stats = statistics st\<rparr>),
      snd (mt_reportEvents_settle (failedEvents st @ reportQueue st)
             (fst (mt_sendReport (config st) up
                     \<lparr>events = failedEvents st @ reportQueue st, stats = statistics st\<rparr>))
             (st\<lparr>reportQueue := [], failedEvents := []\<rparr>)))"
  by (simp add: mt_reportEvents_def mt_begin_nonempty[OF assms] Let_def)


lemma mt_settle_resolved: "fst (mt_reportEvents_settle batch r st) = Resolved"
  by (simp add: mt_reportEvents_settle_def Let_def split: send_result.splits)

lemma mt_settle_threw:
  "snd (mt_reportEvents_settle batch (Threw x) st) =
     st\<lparr>failedEvents :=
          drop (length (failedEvents st @ batch) - nat (batchSize (config st) * 2))
            (failedEvents st @ batch)\<rparr>"
  by (simp add: mt_reportEvents_settle_def Let_def MAX_FAILED_EVENTS_MULTIPLIER_def
      drop_excess[of "failedEvents st @ batch", simplified])

lemma mt_settle_returned:
  "snd (mt_reportEvents_settle batch Returned st) = resetStatisticsAfterReport st"
  by (simp add: mt_reportEvents_settle_def)

lemma ac_begin_empty:
  "ac_failedEvents st @ ac_reportQueue st = [] \<Longrightarrow> ac_flushReportQueue_begin st = (None, st)"
  by (simp add: ac_flushReportQueue_begin_def)

lemma ac_begin_nonempty:
  "ac_failedEvents st @ ac_reportQueue st \<noteq> [] \<Longrightarrow>
     ac_flushReportQueue_begin st =
       (Some \<lparr>events = ac_failedEvents st @ ac_reportQueue st, stats = ac_statistics st\<rparr>,
        st\<lparr>ac_reportQueue := [], ac_failedEvents := []\<rparr>)"
  by (simp add: ac_flushReportQueue_begin_def Let_def)


lemma ac_flushReportQueue_empty:
  "ac_failedEvents st @ ac_reportQueue st = [] \<Longrightarrow>
     ac_flushReportQueue up st = (Resolved, [], st)"
  by (simp add: ac_flushReportQueue_def ac_begin_empty del: append_is_Nil_conv)

lemma ac_flushReportQueue_nonempty:
  assumes "ac_failedEvents st @ ac_reportQueue st \<noteq> []"
  shows "ac_flushReportQueue up st =
     (fst (ac_flushReportQueue_settle (ac_failedEvents st @ ac_reportQueue st)
             (fst (ac_sendReport (reportConfig st) up
                     \<lparr>events = ac_failedEvents st @ ac_reportQueue st, stats = ac_statistics st\<rparr>))
             (st\<lparr>ac_reportQueue := [], ac_failedEvents := []\<rparr>)),
      snd (ac_sendReport (reportConfig st) up
             \<lparr>events = ac_failedEvents st @ ac_reportQueue st, stats = ac_statistics st\<rparr>),
      snd (ac_flushReportQueue_settle (ac_failedEvents st @ ac_reportQueue st)
             (fst (ac_sendReport (reportConfig st) up
                     \<lparr>events = ac_failedEvents st @ ac_reportQueue st, stats = ac_statistics st\<rparr>))
             (st\<lparr>ac_reportQueue := [], ac_failedEvents := []\<rparr>)))"
  by (simp add: ac_flushReportQueue_def ac_begin_nonempty[OF assms] Let_def)


lemma ac_settle_resolved: "fst (ac_flushReportQueue_settle batch r st) = Resolved"
  by (simp add: ac_flushReportQueue_settle_def Let_def split: send_result.splits)

lemma ac_settle_threw:
  "snd (ac_flushReportQueue_settle batch (Threw x) st) =
     st\<lparr>ac_failedEvents :=
          drop (length (ac_failedEvents st @ batch) - nat (rc_batchSize (reportConfig st) * 2))
            (ac_failedEvents st @ batch)\<rparr>"
  by (simp add: ac_flushReportQueue_settle_def Let_def
      drop_excess[of "ac_failedEvents st @ batch", simplified])

lemma ac_settle_returned:
  "snd (ac_flushReportQueue_settle batch Returned st) = ac_resetStatistics st"
  by (simp add: ac_flushReportQueue_settle_def)

section \<open>Claim C5: the failed batch goes back to the failed queue\<close>



lemma ac_queueForReporting_quiet:
  assumes "rc_enabled (reportConfig st)"
    and "int (length (ac_reportQueue st)) + 1 < rc_batchSize (reportConfig st)"
  shows "ac_queueForReporting ev st = st\<lparr>ac_reportQueue := ac_reportQueue st @ [ev]\<rparr>"
  using assms by (simp add: ac_queueForReporting_def Let_def)

lemma ac_queueForReporting_trigger:
  assumes "rc_enabled (reportConfig st)"
    and "rc_batchSize (reportConfig st) \<le> int (length (ac_reportQueue st)) + 1"
  shows "ac_queueForReporting ev st =
     st\<lparr>ac_reportQueue := [], ac_failedEvents := [],
        ac_inFlight := ac_inFlight st @
          [\<lparr>events = ac_failedEvents st @ ac_reportQueue st @ [ev], stats = ac_statistics st\<rparr>]\<rparr>"
  using assms
  by (simp add: ac_queueForReporting_def Let_def ac_flushReportQueue_detached_def
      ac_flushReportQueue_begin_def)




section \<open>Claim C10: a failed delivery leaves the typing statistics alone\<close>

lemma mt_begin_statistics: "statistics (snd (mt_reportEvents_begin st)) = statistics st"
  by (simp add: mt_reportEvents_begin_def Let_def)

lemma mt_reportEvents_threw_statistics:
  assumes "fst (mt_sendReport (config st) up
             \<lparr>events = failedEvents st @ reportQueue st, stats = statistics st\<rparr>) = Threw x"
  shows "statistics (snd (snd (mt_reportEvents up st))) = statistics st"
proof (cases "failedEvents st @ reportQueue st = []")
  case True
  then show ?thesis by (simp add: mt_reportEvents_empty del: append_is_Nil_conv)
next
  case False
  then show ?thesis using assms by (simp add: mt_reportEvents_nonempty mt_settle_threw)
qed

lemma mt_deliver_threw_statistics:
  assumes "i < length (inFlight st)"
    and "fst (mt_sendReport (config st) up (inFlight st ! i)) = Threw x"
  shows "statistics (snd (snd (mt_deliver i up st))) = statistics st"
  using assms by (simp add: mt_deliver_def Let_def mt_settle_threw)

text \<open>
  Claim C10. In \<^verbatim>\<open>ManualTypingStatisticsService\<close> the statistics record is untouched by
  the synchronous part of a flush and by the \<^verbatim>\<open>catch\<close> block; hence a flush whose
  \<^verbatim>\<open>sendReport\<close> throws, awaited or detached, ends with exactly the statistics it began
  with, and only the two queues have changed: the primary queue is empty and every event
  of the failed queue comes from the drained batch. The counters are reset on the success
  path, where the time of the last keystroke is kept.
\<close>

theorem C10_failed_flush_keeps_statistics:
  "statistics (snd (mt_reportEvents_begin st)) = statistics st \<and>
   statistics (snd (mt_reportEvents_settle batch (Threw x) st)) = statistics st \<and>
   (fst (mt_sendReport (config st) up
           \<lparr>events = failedEvents st @ reportQueue st, stats = statistics st\<rparr>) = Threw x \<longrightarrow>
      statistics (snd (snd (mt_reportEvents up st))) = statistics st \<and>
      reportQueue (snd (snd (mt_reportEvents up st))) = [] \<and>
      set (failedEvents (snd (snd (mt_reportEvents up st))))
        \<subseteq> set (failedEvents st @ reportQueue st)) \<and>
   (i < length (inFlight st) \<and>
    fst (mt_sendReport (config st) up (inFlight st ! i)) = Threw x \<longrightarrow>
      statistics (snd (snd (mt_deliver i up st))) = statistics st) \<and>
   statistics (snd (mt_reportEvents_settle batch Returned st)) =
     \<lparr>totalCharactersTyped = 0, totalLinesTyped = 0, totalKeystrokes = 0,
      lastTypingTime = lastTypingTime (statistics st)\<rparr>"
proof -
  have q: "reportQueue (snd (snd (mt_reportEvents up st))) = [] \<and>
      set (failedEvents (snd (snd (mt_reportEvents up st))))
        \<subseteq> set (failedEvents st @ reportQueue st)"
    if "fst (mt_sendReport (config st) up
           \<lparr>events = failedEvents st @ reportQueue st, stats = statistics st\<rparr>) = Threw x"
  proof (cases "failedEvents st @ reportQueue st = []")
    case True
    then show ?thesis by (simp add: mt_reportEvents_empty del: append_is_Nil_conv) simp
  next
    case False
    from False that
    have eq: "failedEvents (snd (snd (mt_reportEvents up st))) =
        drop (length (failedEvents st @ reportQueue st) - nat (batchSize (config st) * 2))
          (failedEvents st @ reportQueue st)"
      "reportQueue (snd (snd (mt_reportEvents up st))) = []"
      by (simp_all add: mt_reportEvents_nonempty mt_settle_threw del: append_is_Nil_conv)
    have "set (failedEvents (snd (snd (mt_reportEvents up st))))
        \<subseteq> set (failedEvents st @ reportQueue st)"
      by (subst eq(1)) (rule set_drop_subset)
    with eq(2) show ?thesis by blast
  qed
  have r: "statistics (snd (mt_reportEvents_settle batch Returned st)) =
     \<lparr>totalCharactersTyped = 0, totalLinesTyped = 0, totalKeystrokes = 0,
      lastTypingTime = lastTypingTime (statistics st)\<rparr>"
    by (simp add: mt_settle_returned resetStatisticsAfterReport_def)
  show ?thesis
    using mt_begin_statistics[of st] mt_settle_threw[of batch x st]
      mt_reportEvents_threw_statistics[of st up x] q mt_deliver_threw_statistics[of i st up x] r
    by simp
qed

text \<open>A state with typed characters, a failed event and a queued event: the flush fails on an
  HTTP 500 and the statistics stay as they were.\<close>

theorem C10_failed_flush_keeps_statistics_witness:
  "(let A = \<lparr>ev_type = ''keystroke'', timestamp = 1, filepath = ''/a.ts'', fileExtension = ''ts'',
             charactersAdded = 1, linesAdded = 0, position = \<lparr>line = 0, character = 1\<rparr>,
             ev_text = ''A''\<rparr>;
        B = A\<lparr>timestamp := 2, ev_text := ''B''\<rparr>;
        T = \<lparr>totalCharactersTyped = 2, totalLinesTyped = 0, totalKeystrokes = 2, lastTypingTime = 2\<rparr>;
        S = mt_init\<lparr>statistics := T, failedEvents := [A], reportQueue := [B],
                    inFlight := [\<lparr>events = [A], stats = T\<rparr>]\<rparr>;
        up = (\<lambda>k. UploadThrows (Some (JsError ''Error'' ''HTTP 500: Internal Server Error'')))
    in statistics (snd (snd (mt_reportEvents up S))) = T \<and>
       reportQueue (snd (snd (mt_reportEvents up S))) = [] \<and>
       statistics (snd (snd (mt_deliver 0 up S))) = T)"
proof -
  define A where "A = \<lparr>ev_type = ''keystroke'', timestamp = 1, filepath = ''/a.ts'',
             fileExtension = ''ts'', charactersAdded = 1, linesAdded = 0,
             position = \<lparr>line = 0, character = 1\<rparr>, ev_text = ''A''\<rparr>"
  define B where "B = A\<lparr>timestamp := 2, ev_text := ''B''\<rparr>"
  define T where "T = \<lparr>totalCharactersTyped = 2, totalLinesTyped = 0, totalKeystrokes = 2,
             lastTypingTime = 2\<rparr>"
  define S where "S = mt_init\<lparr>statistics := T, failedEvents := [A], reportQueue := [B],
                    inFlight := [\<lparr>events = [A], stats = T\<rparr>]\<rparr>"
  define E where "E = Some (JsError ''Error'' ''HTTP 500: Internal Server Error'')"
  define up where "up = (\<lambda>k::nat. UploadThrows E)"
  have s: "statistics S = T" "retryAttempts (config S) = 3" "length (inFlight S) = 1"
    by (simp_all add: S_def mt_init_def mt_startPeriodicReporting_def DEFAULT_CONFIG_def)
  have e: "\<not> isRetryableError E"
    by (simp add: E_def isRetryableError_def RETRYABLE_ERRORS_def toLowerCase_def
        toLowerCase_char_def)
  have f: "fst (mt_sendReport (config S) up p) = Threw E" for p :: mt_payload
    using e s(2) by (simp add: mt_sendReport_def up_def mt_loop_abort[where e=E] del: One_nat_def)
  from C10_failed_flush_keeps_statistics[where st=S and up=up and x=E and i=0 and batch="[]"]
  have "statistics (snd (snd (mt_reportEvents up S))) = T \<and>
       reportQueue (snd (snd (mt_reportEvents up S))) = [] \<and>
       statistics (snd (snd (mt_deliver 0 up S))) = T"
    using s f by simp
  then show ?thesis
    unfolding Let_def A_def[symmetric] B_def[symmetric] T_def[symmetric] S_def[symmetric]
      E_def[symmetric] up_def[symmetric]
    by blast
qed

section \<open>Claim C7: nothing surfaces a delivery failure\<close>

lemma mt_reportEvents_resolved: "fst (mt_reportEvents up st) = Resolved"
  by (cases "failedEvents st @ reportQueue st = []")
     (simp_all add: mt_reportEvents_empty mt_reportEvents_nonempty mt_settle_resolved
        del: append_is_Nil_conv)

lemma ac_flushReportQueue_resolved: "fst (ac_flushReportQueue up st) = Resolved"
  by (cases "ac_failedEvents st @ ac_reportQueue st = []")
     (simp_all add: ac_flushReportQueue_empty ac_flushReportQueue_nonempty ac_settle_resolved
        del: append_is_Nil_conv)

text \<open>
  Claim C7, as the code has it. No operation surfaces a delivery failure. The promise of
  \<^verbatim>\<open>forceReport\<close> resolves in both services whatever the uploads do, since the flush
  catches what \<^verbatim>\<open>sendReport\<close> throws; and a delivery that a producer call or the timer left
  in flight settles as resolved too, so that nothing reaches the producer, not even as an
  unhandled rejection. When \<^verbatim>\<open>sendReport\<close> throws under \<^verbatim>\<open>forceReport\<close>, the batch is in
  the failed queue afterwards (cut to its newest \<open>batchSize * 2\<close> events).
\<close>

theorem C7_no_rejection_surfaces:
  "fst (mt_forceReport up st) = Resolved \<and>
   fst (ac_forceReport up st') = Resolved \<and>
   fst (mt_deliver i up st) = Resolved \<and>
   fst (ac_deliver i up st') = Resolved \<and>
   (failedEvents st @ reportQueue st \<noteq> [] \<and>
    fst (mt_sendReport (config st) up
           \<lparr>events = failedEvents st @ reportQueue st, stats = statistics st\<rparr>) = Threw x \<longrightarrow>
      fst (mt_forceReport up st) \<noteq> Rejected x \<and>
      failedEvents (snd (snd (mt_forceReport up st))) =
        drop (length (failedEvents st @ reportQueue st) - nat (batchSize (config st) * 2))
          (failedEvents st @ reportQueue st)) \<and>
   (ac_failedEvents st' @ ac_reportQueue st' \<noteq> [] \<and>
    fst (ac_sendReport (reportConfig st') up
           \<lparr>events = ac_failedEvents st' @ ac_reportQueue st', stats = ac_statistics st'\<rparr>) = Threw x \<longrightarrow>
      fst (ac_forceReport up st') \<noteq> Rejected x \<and>
      ac_failedEvents (snd (snd (ac_forceReport up st'))) =
        drop (length (ac_failedEvents st' @ ac_reportQueue st') - nat (rc_batchSize (reportConfig st') * 2))
          (ac_failedEvents st' @ ac_reportQueue st'))"
proof -
  have d: "fst (mt_deliver i up st) = Resolved"
    by (simp add: mt_deliver_def Let_def mt_settle_resolved)
  have d': "fst (ac_deliver i up st') = Resolved"
    by (simp add: ac_deliver_def Let_def ac_settle_resolved)
  have m: "failedEvents st @ reportQueue st \<noteq> [] \<and>
    fst (mt_sendReport (config st) up
           \<lparr>events = failedEvents st @ reportQueue st, stats = statistics st\<rparr>) = Threw x \<longrightarrow>
      failedEvents (snd (snd (mt_forceReport up st))) =
        drop (length (failedEvents st @ reportQueue st) - nat (batchSize (config st) * 2))
          (failedEvents st @ reportQueue st)"
    by (simp add: mt_forceReport_def mt_reportEvents_nonempty mt_settle_threw
        del: append_is_Nil_conv)
  have a: "ac_failedEvents st' @ ac_reportQueue st' \<noteq> [] \<and>
    fst (ac_sendReport (reportConfig st') up
           \<lparr>events = ac_failedEvents st' @ ac_reportQueue st', stats = ac_statistics st'\<rparr>) = Threw x \<longrightarrow>
      ac_failedEvents (snd (snd (ac_forceReport up st'))) =
        drop (length (ac_failedEvents st' @ ac_reportQueue st') - nat (rc_batchSize (reportConfig st') * 2))
          (ac_failedEvents st' @ ac_reportQueue st')"
    by (simp add: ac_forceReport_def ac_flushReportQueue_nonempty ac_settle_threw
        del: append_is_Nil_conv)
  show ?thesis
    using d d' m a mt_reportEvents_resolved[of up st] ac_flushReportQueue_resolved[of up st']
    by (simp add: mt_forceReport_def ac_forceReport_def)
qed

text \<open>One keystroke is queued and every upload times out: \<^verbatim>\<open>sendReport\<close> throws the
  time-out after three attempts, and the promise of \<^verbatim>\<open>forceReport\<close> resolves; the same in
  the autocomplete service after one accepted suggestion.\<close>

theorem C7_counterexample:
  "(let E = Some (JsError ''TimeoutError'' ''The operation was aborted due to timeout'');
        up = (\<lambda>k. UploadThrows E);
        S = mt_run [TrackManualTyping 1000 ''/src/a.ts'' ''ts'' 1 0 \<lparr>line = 0, character = 1\<rparr> ''A''];
        S' = ac_run [TrackSuggestionDisplayed 1000 ''A'' ''/src/a.ts'' ''ts'' ''gpt-4'' ''openai'' 50 10,
                     TrackAccept 1500 ''A'']
    in fst (mt_sendReport (config S) up
              \<lparr>events = failedEvents S @ reportQueue S, stats = statistics S\<rparr>) = Threw E \<and>
       length (reportQueue S) = 1 \<and>
       fst (mt_forceReport up S) = Resolved \<and>
       fst (mt_forceReport up S) \<noteq> Rejected E \<and>
       fst (ac_sendReport (reportConfig S') up
              \<lparr>events = ac_failedEvents S' @ ac_reportQueue S', stats = ac_statistics S'\<rparr>) = Threw E \<and>
       length (ac_reportQueue S') = 1 \<and>
       fst (ac_forceReport up S') = Resolved \<and>
       fst (ac_forceReport up S') \<noteq> Rejected E)"
  by code_simp

text \<open>The same on an HTTP 500, which is thrown at the first attempt by the typing service and
  after the third by the autocomplete service: both promises resolve and the event is in
  the failed queue.\<close>

theorem C7_no_rejection_surfaces_witness:
  "(let E = Some (JsError ''Error'' ''HTTP 500: Internal Server Error'');
        up = (\<lambda>k. UploadThrows E);
        A = \<lparr>ev_type = ''keystroke'', timestamp = 1, filepath = ''/a.ts'', fileExtension = ''ts'',
             charactersAdded = 1, linesAdded = 0, position = \<lparr>line = 0, character = 1\<rparr>,
             ev_text = ''A''\<rparr>;
        S = mt_init\<lparr>reportQueue := [A]\<rparr>;
        A' = \<lparr>ie_type = Accept, completionId = ''1'', ie_timestamp = 1, ie_filepath = ''/a.ts'',
              ie_fileExtension = ''ts'', modelName = ''m'', modelProvider = ''p'',
              completionLength = 5, prefixLength = 2, suggestionDisplayTime = Some 10\<rparr>;
        S' = ac_init\<lparr>ac_reportQueue := [A']\<rparr>
    in fst (mt_forceReport up S) = Resolved \<and>
       failedEvents (snd (snd (mt_forceReport up S))) = [A] \<and>
       fst (ac_forceReport up S') = Resolved \<and>
       ac_failedEvents (snd (snd (ac_forceReport up S'))) = [A'])"
proof -
  define E where "E = Some (JsError ''Error'' ''HTTP 500: Internal Server Error'')"
  define up where "up = (\<lambda>k::nat. UploadThrows E)"
  define A where "A = \<lparr>ev_type = ''keystroke'', timestamp = 1, filepath = ''/a.ts'',
             fileExtension = ''ts'', charactersAdded = 1, linesAdded = 0,
             position = \<lparr>line = 0, character = 1\<rparr>, ev_text = ''A''\<rparr>"
  define S where "S = mt_init\<lparr>reportQueue := [A]\<rparr>"
  define A' where "A' = \<lparr>ie_type = Accept, completionId = ''1'', ie_timestamp = 1,
              ie_filepath = ''/a.ts'', ie_fileExtension = ''ts'', modelName = ''m'',
              modelProvider = ''p'', completionLength = 5, prefixLength = 2,
              suggestionDisplayTime = Some 10\<rparr>"
  define S' where "S' = ac_init\<lparr>ac_reportQueue := [A']\<rparr>"
  have s: "failedEvents S = []" "reportQueue S = [A]" "retryAttempts (config S) = 3"
    "batchSize (config S) = 10"
    by (simp_all add: S_def mt_init_def mt_startPeriodicReporting_def DEFAULT_CONFIG_def)
  have s': "ac_failedEvents S' = []" "ac_reportQueue S' = [A']"
    "rc_retryAttempts (reportConfig S') = 3" "rc_batchSize (reportConfig S') = 10"
    by (simp_all add: S'_def ac_init_def ac_startPeriodicReporting_def)
  have e: "\<not> isRetryableError E"
    by (simp add: E_def isRetryableError_def RETRYABLE_ERRORS_def toLowerCase_def
        toLowerCase_char_def)
  have f: "fst (mt_sendReport (config S) up p) = Threw E" for p :: mt_payload
    using e s(3) by (simp add: mt_sendReport_def up_def mt_loop_abort[where e=E] del: One_nat_def)
  have f': "fst (ac_sendReport (reportConfig S') up p) = Threw E" for p :: ac_payload
    using s'(3) ac_sendReport_all_fail[where n=3 and up=up and err="\<lambda>k. E" and cfg="reportConfig S'"
        and p=p]
    by (simp add: up_def)
  from C7_no_rejection_surfaces[where st=S and st'=S' and up=up and x=E and i=0]
  have "fst (mt_forceReport up S) = Resolved \<and>
       failedEvents (snd (snd (mt_forceReport up S))) = [A] \<and>
       fst (ac_forceReport up S') = Resolved \<and>
       ac_failedEvents (snd (snd (ac_forceReport up S'))) = [A']"
    using s s' f f' by simp
  then show ?thesis
    unfolding Let_def E_def[symmetric] up_def[symmetric] A_def[symmetric] S_def[symmetric]
      A'_def[symmetric] S'_def[symmetric]
    by blast
qed

section \<open>The two rates between operations\<close>

lemma updateRates_consistent: "rates_consistent (ac_statistics (updateRates st))"
  by (simp add: updateRates_def rates_consistent_def Let_def)

lemma updateRates_rest:
  "pendingSuggestions (updateRates st) = pendingSuggestions st"
  "tabAccepts (ac_statistics (updateRates st)) = tabAccepts (ac_statistics st)"
  "escCancels (ac_statistics (updateRates st)) = escCancels (ac_statistics st)"
  by (simp_all add: updateRates_def Let_def)

lemma ac_begin_keeps:
  "ac_statistics (snd (ac_flushReportQueue_begin st)) = ac_statistics st"
  "pendingSuggestions (snd (ac_flushReportQueue_begin st)) = pendingSuggestions st"
  by (simp_all add: ac_flushReportQueue_begin_def Let_def)

lemma ac_detached_keeps:
  "ac_statistics (ac_flushReportQueue_detached st) = ac_statistics st"
  "pendingSuggestions (ac_flushReportQueue_detached st) = pendingSuggestions st"
  by (simp_all add: ac_flushReportQueue_detached_def ac_flushReportQueue_begin_def Let_def)

lemma ac_queueForReporting_keeps:
  "ac_statistics (ac_queueForReporting ev st) = ac_statistics st"
  "pendingSuggestions (ac_queueForReporting ev st) = pendingSuggestions st"
  by (simp_all add: ac_queueForReporting_def Let_def ac_detached_keeps)

lemma rates_consistent_reset: "rates_consistent (ac_statistics (ac_resetStatistics st))"
  by (simp add: ac_resetStatistics_def rates_consistent_def)

lemma ac_settle_consistent:
  "rates_consistent (ac_statistics st) \<Longrightarrow>
     rates_consistent (ac_statistics (snd (ac_flushReportQueue_settle batch r st)))"
  by (cases r) (simp_all add: ac_settle_returned ac_settle_threw rates_consistent_reset)

lemma trackAccept_consistent:
  "rates_consistent (ac_statistics st) \<Longrightarrow> rates_consistent (ac_statistics (trackAccept now cid st))"
  by (simp add: trackAccept_def Let_def updateRates_consistent split: option.splits)

lemma trackCancel_consistent:
  "rates_consistent (ac_statistics st) \<Longrightarrow> rates_consistent (ac_statistics (trackCancel now cid st))"
  by (simp add: trackCancel_def Let_def updateRates_consistent split: option.splits)

lemma fold_trackCancel_consistent:
  "rates_consistent (ac_statistics st) \<Longrightarrow>
     rates_consistent (ac_statistics (fold (trackCancel now) cids st))"
  by (induction cids arbitrary: st) (simp_all add: trackCancel_consistent)

lemma ac_flushReportQueue_consistent:
  assumes "rates_consistent (ac_statistics st)"
  shows "rates_consistent (ac_statistics (snd (snd (ac_flushReportQueue up st))))"
proof (cases "ac_failedEvents st @ ac_reportQueue st = []")
  case True
  with assms show ?thesis by (simp add: ac_flushReportQueue_empty del: append_is_Nil_conv)
next
  case False
  have "rates_consistent (ac_statistics (st\<lparr>ac_reportQueue := [], ac_failedEvents := []\<rparr>))"
    using assms by simp
  from ac_settle_consistent[OF this] show ?thesis
    by (simp add: ac_flushReportQueue_nonempty[OF False])
qed

lemma ac_deliver_consistent:
  assumes "rates_consistent (ac_statistics st)"
  shows "rates_consistent (ac_statistics (snd (snd (ac_deliver i up st))))"
proof (cases "i < length (ac_inFlight st)")
  case False
  with assms show ?thesis by (simp add: ac_deliver_def)
next
  case True
  have "rates_consistent (ac_statistics
      (st\<lparr>ac_inFlight := take i (ac_inFlight st) @ drop (Suc i) (ac_inFlight st)\<rparr>))"
    using assms by simp
  from ac_settle_consistent[OF this] True show ?thesis
    by (simp add: ac_deliver_def Let_def)
qed

lemma configureReporting_statistics:
  "ac_statistics (configureReporting p st) = ac_statistics st"
  by (simp add: configureReporting_def Let_def ac_startPeriodicReporting_def split: option.splits)

lemma ac_step_consistent:
  "rates_consistent (ac_statistics st) \<Longrightarrow> rates_consistent (ac_statistics (ac_step st op))"
proof (cases op)
  case (TrackSuggestionDisplayed now cid fp ext mn mp cl pl)
  then show ?thesis by (simp add: trackSuggestionDisplayed_def updateRates_consistent)
next
  case (CleanupPendingSuggestions now maxAgeMs)
  assume "rates_consistent (ac_statistics st)"
  with CleanupPendingSuggestions show ?thesis
    by (simp add: cleanupPendingSuggestions_def Let_def fold_trackCancel_consistent)
qed (simp_all add: trackAccept_consistent trackCancel_consistent rates_consistent_reset
      configureReporting_statistics ac_forceReport_def ac_flushReportQueue_consistent
      ac_detached_keeps ac_deliver_consistent)

lemma ac_init_consistent: "rates_consistent (ac_statistics ac_init)"
  by (simp add: ac_init_def ac_startPeriodicReporting_def rates_consistent_def)

lemma ac_foldl_consistent:
  "rates_consistent (ac_statistics st) \<Longrightarrow> rates_consistent (ac_statistics (foldl ac_step st ops))"
  by (induction ops arbitrary: st) (simp_all add: ac_step_consistent)

text \<open>
  \<^verbatim>\<open>updateRates\<close> always leaves the two rates consistent with the two counters, and so
  does every state the service is in between two operations, from its construction on
  (tracking calls, clean-up, reset, reconfiguration, flushes, timer, deliveries ending):
  with at least one resolution the acceptance rate is
  \<open>tabAccepts / (tabAccepts + escCancels)\<close>, the cancel rate is
  \<open>escCancels / (tabAccepts + escCancels)\<close> and they add up to 1; with none, both are 0.
  Rates are rational numbers here.
\<close>

theorem rates_consistent_between_operations:
  "rates_consistent (ac_statistics (updateRates st)) \<and>
   (0 < tabAccepts (ac_statistics (ac_run ops)) + escCancels (ac_statistics (ac_run ops)) \<longrightarrow>
      acceptanceRate (ac_statistics (ac_run ops)) =
        of_nat (tabAccepts (ac_statistics (ac_run ops))) /
        of_nat (tabAccepts (ac_statistics (ac_run ops)) + escCancels (ac_statistics (ac_run ops))) \<and>
      cancelRate (ac_statistics (ac_run ops)) =
        of_nat (escCancels (ac_statistics (ac_run ops))) /
        of_nat (tabAccepts (ac_statistics (ac_run ops)) + escCancels (ac_statistics (ac_run ops))) \<and>
      acceptanceRate (ac_statistics (ac_run ops)) + cancelRate (ac_statistics (ac_run ops)) = 1) \<and>
   (tabAccepts (ac_statistics (ac_run ops)) + escCancels (ac_statistics (ac_run ops)) = 0 \<longrightarrow>
      acceptanceRate (ac_statistics (ac_run ops)) = 0 \<and>
      cancelRate (ac_statistics (ac_run ops)) = 0)"
proof -
  define s where "s = ac_statistics (ac_run ops)"
  have c: "rates_consistent s"
    unfolding s_def ac_run_def by (rule ac_foldl_consistent[OF ac_init_consistent])
  have pos: "acceptanceRate s = of_nat (tabAccepts s) / of_nat (tabAccepts s + escCancels s) \<and>
      cancelRate s = of_nat (escCancels s) / of_nat (tabAccepts s + escCancels s) \<and>
      acceptanceRate s + cancelRate s = 1"
    if "0 < tabAccepts s + escCancels s"
  proof -
    from c that have r: "acceptanceRate s = of_nat (tabAccepts s) / of_nat (tabAccepts s + escCancels s)"
      "cancelRate s = of_nat (escCancels s) / of_nat (tabAccepts s + escCancels s)"
      by (simp_all add: rates_consistent_def)
    define t :: rat where "t = of_nat (tabAccepts s + escCancels s)"
    have nz: "t \<noteq> 0" unfolding t_def of_nat_eq_0_iff using that by simp
    have "of_nat (tabAccepts s) / t + of_nat (escCancels s) / t =
          (of_nat (tabAccepts s) + of_nat (escCancels s)) / t"
      by (rule add_divide_distrib[symmetric])
    also have "\<dots> = t / t" by (simp add: t_def)
    also have "\<dots> = 1" using nz by simp
    finally show ?thesis using r by (simp add: t_def)
  qed
  have zero: "acceptanceRate s = 0 \<and> cancelRate s = 0" if "tabAccepts s + escCancels s = 0"
    using c that by (simp add: rates_consistent_def)
  show ?thesis
    using updateRates_consistent[of st] pos zero unfolding s_def by blast
qed

text \<open>The scenario of the specification: three suggestions displayed, two accepted, one
  cancelled; and the service as constructed.\<close>

theorem rates_consistent_between_operations_scenario:
  "(let s = ac_statistics (ac_run
       [TrackSuggestionDisplayed 1000 ''1'' ''/test/file.ts'' ''ts'' ''gpt-4'' ''openai'' 50 10,
        TrackSuggestionDisplayed 1001 ''2'' ''/test/file.ts'' ''ts'' ''gpt-4'' ''openai'' 30 5,
        TrackSuggestionDisplayed 1002 ''3'' ''/test/file.ts'' ''ts'' ''gpt-4'' ''openai'' 40 8,
        TrackAccept 2000 ''1'', TrackAccept 2001 ''2'', TrackCancel 2002 ''3''])
    in tabAccepts s = 2 \<and> escCancels s = 1 \<and> totalSuggestions s = 3 \<and>
       acceptanceRate s = 2 / 3 \<and> cancelRate s = 1 / 3 \<and> acceptanceRate s + cancelRate s = 1) \<and>
   acceptanceRate (ac_statistics (ac_run [])) = 0 \<and> cancelRate (ac_statistics (ac_run [])) = 0"
proof -
  define ops where "ops =
       [TrackSuggestionDisplayed 1000 ''1'' ''/test/file.ts'' ''ts'' ''gpt-4'' ''openai'' 50 10,
        TrackSuggestionDisplayed 1001 ''2'' ''/test/file.ts'' ''ts'' ''gpt-4'' ''openai'' 30 5,
        TrackSuggestionDisplayed 1002 ''3'' ''/test/file.ts'' ''ts'' ''gpt-4'' ''openai'' 40 8,
        TrackAccept 2000 ''1'', TrackAccept 2001 ''2'', TrackCancel 2002 ''3'']"
  have "tabAccepts (ac_statistics (ac_run ops)) = 2 \<and> escCancels (ac_statistics (ac_run ops)) = 1 \<and>
    totalSuggestions (ac_statistics (ac_run ops)) = 3"
    unfolding ops_def by code_simp
  then have n: "tabAccepts (ac_statistics (ac_run ops)) = 2" "escCancels (ac_statistics (ac_run ops)) = 1"
    "totalSuggestions (ac_statistics (ac_run ops)) = 3"
    by simp_all
  have z: "tabAccepts (ac_statistics (ac_run [])) + escCancels (ac_statistics (ac_run [])) = 0"
    by code_simp
  from rates_consistent_between_operations[where ops=ops and st=ac_init] n
  have "acceptanceRate (ac_statistics (ac_run ops)) = 2 / 3 \<and>
        cancelRate (ac_statistics (ac_run ops)) = 1 / 3 \<and>
        acceptanceRate (ac_statistics (ac_run ops)) + cancelRate (ac_statistics (ac_run ops)) = 1"
    by simp
  moreover from rates_consistent_between_operations[where ops="[]" and st=ac_init] z
  have "acceptanceRate (ac_statistics (ac_run [])) = 0 \<and> cancelRate (ac_statistics (ac_run [])) = 0"
    by blast
  ultimately show ?thesis
    using n unfolding Let_def ops_def[symmetric] by blast
qed

section \<open>Claim C9: resolving a suggestion that is not pending\<close>

lemma trackAccept_not_pending:
  "map_of (pendingSuggestions st) cid = None \<Longrightarrow> trackAccept now cid st = st"
  by (simp add: trackAccept_def)

lemma trackCancel_not_pending:
  "map_of (pendingSuggestions st) cid = None \<Longrightarrow> trackCancel now cid st = st"
  by (simp add: trackCancel_def)

lemma trackAccept_removes:
  "map_of (pendingSuggestions (trackAccept now cid st)) cid = None"
  by (cases "map_of (pendingSuggestions st) cid")
     (simp_all add: trackAccept_def Let_def updateRates_rest ac_queueForReporting_keeps
        AList.delete_conv)

lemma trackCancel_removes:
  "map_of (pendingSuggestions (trackCancel now cid st)) cid = None"
  by (cases "map_of (pendingSuggestions st) cid")
     (simp_all add: trackCancel_def Let_def updateRates_rest ac_queueForReporting_keeps
        AList.delete_conv)

lemma trackAccept_counts:
  "map_of (pendingSuggestions st) cid = Some pending \<Longrightarrow>
     tabAccepts (ac_statistics (trackAccept now cid st)) = tabAccepts (ac_statistics st) + 1 \<and>
     escCancels (ac_statistics (trackAccept now cid st)) = escCancels (ac_statistics st)"
  by (simp add: trackAccept_def Let_def updateRates_rest ac_queueForReporting_keeps)

lemma trackCancel_counts:
  "map_of (pendingSuggestions st) cid = Some pending \<Longrightarrow>
     escCancels (ac_statistics (trackCancel now cid st)) = escCancels (ac_statistics st) + 1 \<and>
     tabAccepts (ac_statistics (trackCancel now cid st)) = tabAccepts (ac_statistics st)"
  by (simp add: trackCancel_def Let_def updateRates_rest ac_queueForReporting_keeps)

text \<open>
  Claim C9. \<^verbatim>\<open>trackAccept\<close> and \<^verbatim>\<open>trackCancel\<close> on an identifier that is not in
  \<^verbatim>\<open>pendingSuggestions\<close> return the state as it is: no counter, no queue, no pending entry
  changes and no event is produced. After either of them the identifier is not pending, so
  a second resolution of the same identifier, of either kind and at any time, changes
  nothing, and a pending suggestion that is accepted twice is counted once. An identifier
  is not pending when it was never displayed (the service as constructed) or was evicted by
  a reset.
\<close>

theorem C9_resolving_unknown_is_noop:
  "(map_of (pendingSuggestions st) cid = None \<longrightarrow>
      trackAccept now cid st = st \<and> trackCancel now cid st = st) \<and>
   map_of (pendingSuggestions (trackAccept now cid st)) cid = None \<and>
   map_of (pendingSuggestions (trackCancel now cid st)) cid = None \<and>
   trackAccept now' cid (trackAccept now cid st) = trackAccept now cid st \<and>
   trackCancel now' cid (trackAccept now cid st) = trackAccept now cid st \<and>
   trackCancel now' cid (trackCancel now cid st) = trackCancel now cid st \<and>
   trackAccept now' cid (trackCancel now cid st) = trackCancel now cid st \<and>
   (map_of (pendingSuggestions st) cid \<noteq> None \<longrightarrow>
      tabAccepts (ac_statistics (trackAccept now' cid (trackAccept now cid st))) =
        tabAccepts (ac_statistics st) + 1 \<and>
      escCancels (ac_statistics (trackCancel now' cid (trackCancel now cid st))) =
        escCancels (ac_statistics st) + 1) \<and>
   trackAccept now cid ac_init = ac_init \<and>
   trackAccept now cid (ac_resetStatistics st) = ac_resetStatistics st \<and>
   trackCancel now cid (ac_resetStatistics st) = ac_resetStatistics st"
proof -
  have i: "map_of (pendingSuggestions ac_init) cid = None"
    by (simp add: ac_init_def ac_startPeriodicReporting_def)
  have r: "map_of (pendingSuggestions (ac_resetStatistics st)) cid = None"
    by (simp add: ac_resetStatistics_def)
  have c: "tabAccepts (ac_statistics (trackAccept now' cid (trackAccept now cid st))) =
        tabAccepts (ac_statistics st) + 1 \<and>
      escCancels (ac_statistics (trackCancel now' cid (trackCancel now cid st))) =
        escCancels (ac_statistics st) + 1"
    if "map_of (pendingSuggestions st) cid \<noteq> None"
  proof -
    from that obtain pending where p: "map_of (pendingSuggestions st) cid = Some pending"
      by blast
    show ?thesis
      using trackAccept_counts[OF p, of now] trackCancel_counts[OF p, of now]
      by (simp add: trackAccept_not_pending[OF trackAccept_removes]
          trackCancel_not_pending[OF trackCancel_removes])
  qed
  show ?thesis
    using trackAccept_not_pending[of st cid now] trackCancel_not_pending[of st cid now]
      trackAccept_removes[of now cid st] trackCancel_removes[of now cid st]
      trackAccept_not_pending[OF trackAccept_removes, of now' cid now st]
      trackCancel_not_pending[OF trackAccept_removes, of now' cid now st]
      trackCancel_not_pending[OF trackCancel_removes, of now' cid now st]
      trackAccept_not_pending[OF trackCancel_removes, of now' cid now st]
      c trackAccept_not_pending[OF i, of now] trackAccept_not_pending[OF r, of now]
      trackCancel_not_pending[OF r, of now]
    by blast
qed

text \<open>A suggestion is displayed and accepted, then accepted and cancelled again: one accept
  is counted, one event is queued. An identifier that was never displayed is a no-op.\<close>

theorem C9_resolving_unknown_is_noop_witness:
  "(let S = ac_run [TrackSuggestionDisplayed 1000 ''1'' ''/test/file.ts'' ''ts'' ''gpt-4'' ''openai'' 50 10];
        S1 = trackAccept 1500 ''1'' S
    in map_of (pendingSuggestions S) ''1'' \<noteq> None \<and>
       map_of (pendingSuggestions S) ''2'' = None \<and>
       trackAccept 1600 ''2'' S = S \<and> trackCancel 1600 ''2'' S = S \<and>
       trackAccept 1700 ''1'' S1 = S1 \<and> trackCancel 1700 ''1'' S1 = S1 \<and>
       tabAccepts (ac_statistics (trackAccept 1700 ''1'' S1)) = 1 \<and>
       length (ac_reportQueue (trackAccept 1700 ''1'' S1)) = 1)"
proof -
  define S where "S = ac_run [TrackSuggestionDisplayed 1000 ''1'' ''/test/file.ts'' ''ts'' ''gpt-4'' ''openai'' 50 10]"
  define S1 where "S1 = trackAccept 1500 ''1'' S"
  have p: "map_of (pendingSuggestions S) ''1'' \<noteq> None \<and> map_of (pendingSuggestions S) ''2'' = None \<and>
      tabAccepts (ac_statistics S) = 0 \<and> length (ac_reportQueue S1) = 1"
    unfolding S_def S1_def by code_simp
  note T = C9_resolving_unknown_is_noop[where st=S and cid="''1''" and now=1500 and now'=1700]
  note U = C9_resolving_unknown_is_noop[where st=S and cid="''2''" and now=1600 and now'=1700]
  have "trackAccept 1600 ''2'' S = S \<and> trackCancel 1600 ''2'' S = S"
    using U[THEN conjunct1] p by simp
  moreover have "trackAccept 1700 ''1'' S1 = S1 \<and> trackCancel 1700 ''1'' S1 = S1"
    using T[THEN conjunct2, THEN conjunct2, THEN conjunct2] unfolding S1_def by simp
  moreover have "tabAccepts (ac_statistics (trackAccept 1700 ''1'' S1)) = 1"
    using T[THEN conjunct2, THEN conjunct2, THEN conjunct2, THEN conjunct2, THEN conjunct2,
        THEN conjunct2, THEN conjunct2, THEN conjunct1] p
    unfolding S1_def by simp
  moreover have "length (ac_reportQueue (trackAccept 1700 ''1'' S1)) = 1"
    using calculation(2) p by simp
  ultimately show ?thesis
    using p unfolding Let_def S_def[symmetric] S1_def[symmetric] by blast
qed

section \<open>Claim C4: the capacity of the primary queue\<close>

lemma mt_detached_queue: "reportQueue (mt_reportEvents_detached st) = []"
  using mt_begin_cleared[of st]
  by (cases "mt_reportEvents_begin st") (auto simp: mt_reportEvents_detached_def split: option.splits)

lemma mt_queueForReporting_bound:
  assumes "int (length (reportQueue st)) \<le> MAX_QUEUE_SIZE"
  shows "int (length (reportQueue (mt_queueForReporting ev st))) \<le> MAX_QUEUE_SIZE"
  using assms
  by (auto simp: mt_queueForReporting_def Let_def mt_detached_queue MAX_QUEUE_SIZE_def)

lemma performPeriodicCleanup_queue:
  "reportQueue (performPeriodicCleanup now st) = reportQueue st"
  by (simp add: performPeriodicCleanup_def Let_def)

lemma updateStatisticsBatch_queue:
  "reportQueue (updateStatisticsBatch c l t st) = reportQueue st"
  by (simp add: updateStatisticsBatch_def)

lemma trackManualTyping_bound:
  assumes "int (length (reportQueue st)) \<le> MAX_QUEUE_SIZE"
  shows "int (length (reportQueue (trackManualTyping now fp ext chars lns pos txt st)))
           \<le> MAX_QUEUE_SIZE"
  using assms mt_queueForReporting_bound[of "updateStatisticsBatch chars lns now st"]
  by (simp add: trackManualTyping_def Let_def performPeriodicCleanup_queue
      updateStatisticsBatch_queue)

lemma mt_settle_queue:
  "reportQueue (snd (mt_reportEvents_settle batch r st)) = reportQueue st"
  by (cases r) (simp_all add: mt_settle_returned mt_settle_threw resetStatisticsAfterReport_def)

lemma mt_reportEvents_queue: "reportQueue (snd (snd (mt_reportEvents up st))) = []"
proof (cases "failedEvents st @ reportQueue st = []")
  case True
  then show ?thesis by (simp add: mt_reportEvents_empty del: append_is_Nil_conv) simp
next
  case False
  then show ?thesis by (simp add: mt_reportEvents_nonempty mt_settle_queue)
qed

lemma mt_deliver_queue: "reportQueue (snd (snd (mt_deliver i up st))) = reportQueue st"
  by (simp add: mt_deliver_def Let_def mt_settle_queue)

lemma configure_queue: "reportQueue (configure p st) = reportQueue st"
  by (simp add: configure_def Let_def mt_startPeriodicReporting_def split: option.splits)

lemma dispose_queue: "reportQueue (dispose st) = reportQueue st"
  by (simp add: dispose_def split: option.splits)

lemma mt_step_bound:
  assumes "int (length (reportQueue st)) \<le> MAX_QUEUE_SIZE"
  shows "int (length (reportQueue (mt_step st op))) \<le> MAX_QUEUE_SIZE"
proof -
  have "0 \<le> MAX_QUEUE_SIZE" by (simp add: MAX_QUEUE_SIZE_def)
  with assms show ?thesis
    by (cases op)
       (simp_all add: trackManualTyping_bound mt_resetStatistics_def configure_queue
          mt_forceReport_def mt_reportEvents_queue dispose_queue mt_detached_queue
          mt_deliver_queue)
qed

lemma mt_foldl_bound:
  "int (length (reportQueue st)) \<le> MAX_QUEUE_SIZE \<Longrightarrow>
     int (length (reportQueue (foldl mt_step st ops))) \<le> MAX_QUEUE_SIZE"
  by (induction ops arbitrary: st) (simp_all add: mt_step_bound)

lemma mt_init_queue: "reportQueue mt_init = []"
  by (simp add: mt_init_def mt_startPeriodicReporting_def DEFAULT_CONFIG_def)

lemma mt_queueForReporting_at_capacity:
  assumes "int (length (reportQueue st)) = MAX_QUEUE_SIZE"
  shows "batchSize (config st) \<le> MAX_QUEUE_SIZE \<longrightarrow>
           reportQueue (mt_queueForReporting ev st) = [] \<and>
           inFlight (mt_queueForReporting ev st) =
             inFlight st @ [\<lparr>events = failedEvents st @ tl (reportQueue st) @ [ev],
                             stats = statistics st\<rparr>]"
    and "MAX_QUEUE_SIZE < batchSize (config st) \<longrightarrow>
           reportQueue (mt_queueForReporting ev st) = tl (reportQueue st) @ [ev] \<and>
           int (length (reportQueue (mt_queueForReporting ev st))) = MAX_QUEUE_SIZE"
  using assms
  by (auto simp: mt_queueForReporting_def Let_def mt_reportEvents_detached_def
      mt_reportEvents_begin_def MAX_QUEUE_SIZE_def)

text \<open>The autocomplete service: a suggestion is displayed and accepted, \<open>n\<close> times over.\<close>

lemma ac_display_accept:
  assumes "rc_enabled (reportConfig st)"
    and "int (length (ac_reportQueue st)) + 1 < rc_batchSize (reportConfig st)"
  shows "reportConfig (ac_step (ac_step st (TrackSuggestionDisplayed t cid fp ext mn mp cl pl))
                         (TrackAccept t' cid)) = reportConfig st \<and>
         length (ac_reportQueue (ac_step (ac_step st (TrackSuggestionDisplayed t cid fp ext mn mp cl pl))
                         (TrackAccept t' cid))) = Suc (length (ac_reportQueue st))"
proof -
  define st1 where "st1 = trackSuggestionDisplayed t cid fp ext mn mp cl pl st"
  have 1: "reportConfig st1 = reportConfig st" "ac_reportQueue st1 = ac_reportQueue st"
    "map_of (pendingSuggestions st1) cid \<noteq> None"
    by (simp_all add: st1_def trackSuggestionDisplayed_def updateRates_def Let_def
        AList.update_conv')
  then obtain pending where p: "map_of (pendingSuggestions st1) cid = Some pending"
    by blast
  define st2 where "st2 = st1\<lparr>ac_statistics := (ac_statistics st1)
                          \<lparr>tabAccepts := tabAccepts (ac_statistics st1) + 1\<rparr>,
                        pendingSuggestions := AList.delete cid (pendingSuggestions st1)\<rparr>"
  have 2: "rc_enabled (reportConfig st2)"
    "int (length (ac_reportQueue st2)) + 1 < rc_batchSize (reportConfig st2)"
    "reportConfig st2 = reportConfig st" "ac_reportQueue st2 = ac_reportQueue st"
    using assms 1 by (simp_all add: st2_def)
  have "trackAccept t' cid st1 = updateRates (ac_queueForReporting (interactionEvent Accept t' cid pending) st2)"
    using p by (simp add: trackAccept_def Let_def st2_def)
  then show ?thesis
    using 2 by (simp add: st1_def[symmetric] ac_queueForReporting_quiet[OF 2(1,2)]
        updateRates_def Let_def)
qed

lemma ac_display_accept_many:
  assumes "rc_enabled (reportConfig st)"
    and "int (length (ac_reportQueue st)) + int n < rc_batchSize (reportConfig st)"
  shows "length (ac_reportQueue (foldl ac_step st
            (concat (replicate n [TrackSuggestionDisplayed t cid fp ext mn mp cl pl,
                                  TrackAccept t' cid])))) = length (ac_reportQueue st) + n"
  using assms
proof (induction n arbitrary: st)
  case 0
  then show ?case by simp
next
  case (Suc n)
  define st' where "st' = ac_step (ac_step st (TrackSuggestionDisplayed t cid fp ext mn mp cl pl))
                         (TrackAccept t' cid)"
  have s: "reportConfig st' = reportConfig st" "length (ac_reportQueue st') = Suc (length (ac_reportQueue st))"
    using ac_display_accept[of st t cid fp ext mn mp cl pl t'] Suc.prems
    by (simp_all add: st'_def)
  have "length (ac_reportQueue (foldl ac_step st'
            (concat (replicate n [TrackSuggestionDisplayed t cid fp ext mn mp cl pl,
                                  TrackAccept t' cid])))) = length (ac_reportQueue st') + n"
    using Suc.prems s by (intro Suc.IH) simp_all
  then show ?case
    using s by (simp add: st'_def)
qed

text \<open>
  Claim C4, as the code has it. Only \<^verbatim>\<open>ManualTypingStatisticsService\<close> has a capacity. There
  the primary queue never holds more than \<^verbatim>\<open>MAX_QUEUE_SIZE\<close> = 1000 events: the bound holds
  after every sequence of operations from the construction on, and every single operation
  preserves it. Queueing at capacity drops the oldest entry and appends the new one; the
  queue then has exactly 1000 entries when the batch size is above 1000, and otherwise the
  size trigger drains it at once into the batch of a new delivery.
\<close>

theorem C4_typing_queue_capacity:
  "int (length (reportQueue (mt_run ops))) \<le> 1000 \<and>
   (int (length (reportQueue st)) \<le> 1000 \<longrightarrow> int (length (reportQueue (mt_step st op))) \<le> 1000) \<and>
   (int (length (reportQueue st)) = 1000 \<and> 1000 < batchSize (config st) \<longrightarrow>
      reportQueue (mt_queueForReporting ev st) = tl (reportQueue st) @ [ev] \<and>
      int (length (reportQueue (mt_queueForReporting ev st))) = 1000) \<and>
   (int (length (reportQueue st)) = 1000 \<and> batchSize (config st) \<le> 1000 \<longrightarrow>
      reportQueue (mt_queueForReporting ev st) = [] \<and>
      inFlight (mt_queueForReporting ev st) =
        inFlight st @ [\<lparr>events = failedEvents st @ tl (reportQueue st) @ [ev],
                        stats = statistics st\<rparr>])"
proof -
  have r: "int (length (reportQueue (mt_run ops))) \<le> MAX_QUEUE_SIZE"
    unfolding mt_run_def by (rule mt_foldl_bound) (simp add: mt_init_queue MAX_QUEUE_SIZE_def)
  show ?thesis
    using r mt_step_bound[of st op] mt_queueForReporting_at_capacity[of st ev]
    unfolding MAX_QUEUE_SIZE_def by blast
qed

text \<open>The bound after some keystrokes; and a queue of 1000 events that takes one more, with
  a batch size of 2000 and with the default batch size of 10.\<close>

theorem C4_typing_queue_capacity_witness:
  "(let A = \<lparr>ev_type = ''keystroke'', timestamp = 1, filepath = ''/a.ts'', fileExtension = ''ts'',
             charactersAdded = 1, linesAdded = 0, position = \<lparr>line = 0, character = 1\<rparr>,
             ev_text = ''A''\<rparr>;
        B = A\<lparr>timestamp := 2, ev_text := ''B''\<rparr>;
        S = mt_init\<lparr>reportQueue := replicate 1000 A\<rparr>;
        S2 = S\<lparr>config := (config S)\<lparr>batchSize := 2000\<rparr>\<rparr>;
        op = TrackManualTyping 1000 ''/src/a.ts'' ''ts'' 1 0 \<lparr>line = 0, character = 1\<rparr> ''A''
    in int (length (reportQueue (mt_run [op, op, op]))) \<le> 1000 \<and>
       int (length (reportQueue (mt_step S2 op))) \<le> 1000 \<and>
       reportQueue (mt_queueForReporting B S2) = replicate 999 A @ [B] \<and>
       int (length (reportQueue (mt_queueForReporting B S2))) = 1000 \<and>
       reportQueue (mt_queueForReporting B S) = [] \<and>
       inFlight (mt_queueForReporting B S) =
         [\<lparr>events = replicate 999 A @ [B], stats = statistics mt_init\<rparr>])"
proof -
  define A where "A = \<lparr>ev_type = ''keystroke'', timestamp = 1, filepath = ''/a.ts'',
             fileExtension = ''ts'', charactersAdded = 1, linesAdded = 0,
             position = \<lparr>line = 0, character = 1\<rparr>, ev_text = ''A''\<rparr>"
  define B where "B = A\<lparr>timestamp := 2, ev_text := ''B''\<rparr>"
  define S where "S = mt_init\<lparr>reportQueue := replicate 1000 A\<rparr>"
  define S2 where "S2 = S\<lparr>config := (config S)\<lparr>batchSize := 2000\<rparr>\<rparr>"
  define op where "op = TrackManualTyping 1000 ''/src/a.ts'' ''ts'' 1 0 \<lparr>line = 0, character = 1\<rparr> ''A''"
  have s: "reportQueue S = replicate 1000 A" "failedEvents S = []" "inFlight S = []"
    "statistics S = statistics mt_init" "batchSize (config S) = 10"
    by (simp_all add: S_def mt_init_def mt_startPeriodicReporting_def DEFAULT_CONFIG_def)
  have s2: "reportQueue S2 = replicate 1000 A" "batchSize (config S2) = 2000"
    using s by (simp_all add: S2_def)
  have t: "tl (replicate 1000 A) = replicate 999 A"
    by simp
  note T = C4_typing_queue_capacity[where ops="[op, op, op]" and st=S2 and op=op and ev=B]
  note U = C4_typing_queue_capacity[where ops="[op, op, op]" and st=S and op=op and ev=B]
  have "int (length (reportQueue (mt_run [op, op, op]))) \<le> 1000"
    using T by blast
  moreover have "int (length (reportQueue (mt_step S2 op))) \<le> 1000"
    using T s2 by simp
  moreover have "reportQueue (mt_queueForReporting B S2) = replicate 999 A @ [B] \<and>
       int (length (reportQueue (mt_queueForReporting B S2))) = 1000"
    using T[THEN conjunct2, THEN conjunct2, THEN conjunct1] s2 t by simp
  moreover have "reportQueue (mt_queueForReporting B S) = [] \<and>
       inFlight (mt_queueForReporting B S) =
         [\<lparr>events = replicate 999 A @ [B], stats = statistics mt_init\<rparr>]"
    using U[THEN conjunct2, THEN conjunct2, THEN conjunct2] s t by simp
  ultimately show ?thesis
    unfolding Let_def A_def[symmetric] B_def[symmetric] S_def[symmetric] S2_def[symmetric]
      op_def[symmetric]
    by blast
qed

text \<open>The autocomplete service with a batch size of 2000: after 1001 suggestions displayed
  and accepted its primary queue holds 1001 events.\<close>

theorem C4_counterexample:
  "length (ac_reportQueue (ac_run
     (ConfigureReporting \<lparr>rp_enabled = None, rp_batchSize = Some 2000, rp_reportInterval = None,
                          rp_retryAttempts = None, rp_retryDelay = None\<rparr> #
      concat (replicate 1001
        [TrackSuggestionDisplayed 1000 ''s'' ''/test/file.ts'' ''ts'' ''gpt-4'' ''openai'' 50 10,
         TrackAccept 1500 ''s''])))) = 1001 \<and>
   \<not> int 1001 \<le> MAX_QUEUE_SIZE"
proof -
  define st0 where "st0 = ac_step ac_init
     (ConfigureReporting \<lparr>rp_enabled = None, rp_batchSize = Some 2000, rp_reportInterval = None,
                          rp_retryAttempts = None, rp_retryDelay = None\<rparr>)"
  have s: "rc_enabled (reportConfig st0)" "rc_batchSize (reportConfig st0) = 2000"
    "ac_reportQueue st0 = []"
    by (simp_all add: st0_def ac_init_def ac_startPeriodicReporting_def configureReporting_def
        ac_merge_config_def clearInterval_def Let_def)
  have "length (ac_reportQueue (foldl ac_step st0
            (concat (replicate 1001
               [TrackSuggestionDisplayed 1000 ''s'' ''/test/file.ts'' ''ts'' ''gpt-4'' ''openai'' 50 10,
                TrackAccept 1500 ''s''])))) = length (ac_reportQueue st0) + 1001"
    using s by (intro ac_display_accept_many) simp_all
  then show ?thesis
    using s by (simp add: ac_run_def st0_def MAX_QUEUE_SIZE_def)
qed

section \<open>Claim C6: no delayed timer\<close>

lemma mt_queueForReporting_timers:
  "timers (mt_queueForReporting ev st) = timers st \<and>
   reportTimer (mt_queueForReporting ev st) = reportTimer st \<and>
   nextHandle (mt_queueForReporting ev st) = nextHandle st"
  by (simp add: mt_queueForReporting_def Let_def mt_reportEvents_detached_def
      mt_reportEvents_begin_def)

lemma ac_queueForReporting_timers:
  "ac_timers (ac_queueForReporting ev st) = ac_timers st \<and>
   ac_reportTimer (ac_queueForReporting ev st) = ac_reportTimer st \<and>
   ac_nextHandle (ac_queueForReporting ev st) = ac_nextHandle st"
  by (simp add: ac_queueForReporting_def Let_def ac_flushReportQueue_detached_def
      ac_flushReportQueue_begin_def)

lemma updateRates_timers:
  "ac_timers (updateRates st) = ac_timers st \<and>
   ac_reportTimer (updateRates st) = ac_reportTimer st \<and>
   ac_nextHandle (updateRates st) = ac_nextHandle st"
  by (simp add: updateRates_def Let_def)

text \<open>
  Claim C6 against the code. Queueing an event registers no timer in either service, also
  when the queue was empty before: the interval table, the handle of the periodic timer
  and the next free handle are what they were, through \<^verbatim>\<open>queueForReporting\<close> and through
  the producer calls \<^verbatim>\<open>trackManualTyping\<close>, \<^verbatim>\<open>trackAccept\<close> and \<^verbatim>\<open>trackCancel\<close>. After a
  first suggestion is displayed and accepted in the service as constructed, one event is
  queued and the only timer is the periodic interval of 300000 ms.
\<close>

theorem C6_enqueue_arms_no_timer:
  "timers (mt_queueForReporting ev st) = timers st \<and>
   reportTimer (mt_queueForReporting ev st) = reportTimer st \<and>
   nextHandle (mt_queueForReporting ev st) = nextHandle st \<and>
   timers (trackManualTyping now fp ext chars lns pos txt st) = timers st \<and>
   ac_timers (ac_queueForReporting ev' st') = ac_timers st' \<and>
   ac_reportTimer (ac_queueForReporting ev' st') = ac_reportTimer st' \<and>
   ac_nextHandle (ac_queueForReporting ev' st') = ac_nextHandle st' \<and>
   ac_timers (trackAccept now cid st') = ac_timers st' \<and>
   ac_timers (trackCancel now cid st') = ac_timers st' \<and>
   (let S = ac_run [TrackSuggestionDisplayed 1000 ''1'' ''/test/file.ts'' ''ts'' ''gpt-4'' ''openai'' 50 10,
                    TrackAccept 1500 ''1'']
    in ac_reportQueue ac_init = [] \<and> length (ac_reportQueue S) = 1 \<and>
       ac_timers S = [(0, 300000)] \<and> ac_timers S = ac_timers ac_init)"
proof -
  have m: "timers (trackManualTyping now fp ext chars lns pos txt st) = timers st"
    using mt_queueForReporting_timers
    by (simp add: trackManualTyping_def Let_def performPeriodicCleanup_def
        updateStatisticsBatch_def)
  have a: "ac_timers (trackAccept now cid st') = ac_timers st'"
    by (simp add: trackAccept_def Let_def updateRates_timers ac_queueForReporting_timers
        split: option.splits)
  have c: "ac_timers (trackCancel now cid st') = ac_timers st'"
    by (simp add: trackCancel_def Let_def updateRates_timers ac_queueForReporting_timers
        split: option.splits)
  have e: "(let S = ac_run [TrackSuggestionDisplayed 1000 ''1'' ''/test/file.ts'' ''ts'' ''gpt-4'' ''openai'' 50 10,
                    TrackAccept 1500 ''1'']
    in ac_reportQueue ac_init = [] \<and> length (ac_reportQueue S) = 1 \<and>
       ac_timers S = [(0, 300000)] \<and> ac_timers S = ac_timers ac_init)"
    by code_simp
  show ?thesis
    using mt_queueForReporting_timers[of ev st] m ac_queueForReporting_timers[of ev' st'] a c e
    by blast
qed

section \<open>Claim C8: the rates in a report that the size trigger sends\<close>

lemma trackAccept_snapshot:
  assumes "map_of (pendingSuggestions st) cid = Some pending"
    and "rc_enabled (reportConfig st)"
    and "rc_batchSize (reportConfig st) \<le> int (length (ac_reportQueue st)) + 1"
  shows "map stats (ac_inFlight (trackAccept now cid st)) =
           map stats (ac_inFlight st) @
             [(ac_statistics st)\<lparr>tabAccepts := tabAccepts (ac_statistics st) + 1\<rparr>]"
  using assms
  by (simp add: trackAccept_def Let_def ac_queueForReporting_trigger updateRates_def)

lemma trackCancel_snapshot:
  assumes "map_of (pendingSuggestions st) cid = Some pending"
    and "rc_enabled (reportConfig st)"
    and "rc_batchSize (reportConfig st) \<le> int (length (ac_reportQueue st)) + 1"
  shows "map stats (ac_inFlight (trackCancel now cid st)) =
           map stats (ac_inFlight st) @
             [(ac_statistics st)\<lparr>escCancels := escCancels (ac_statistics st) + 1\<rparr>]"
  using assms
  by (simp add: trackCancel_def Let_def ac_queueForReporting_trigger updateRates_def)

text \<open>
  Claim C8 against the code. \<^verbatim>\<open>trackAccept\<close> and \<^verbatim>\<open>trackCancel\<close> increment their counter,
  queue the event and only then call \<^verbatim>\<open>updateRates\<close>. When the event fires the size
  trigger, \<^verbatim>\<open>flushReportQueue\<close> copies \<^verbatim>\<open>this.statistics\<close> into the report in between:
  the new counter with the rates of before. In the service as constructed (batch size 10),
  ten suggestions are displayed, nine are accepted and the tenth is cancelled: the report
  that goes in flight says 9 accepts, 1 cancel, acceptance rate 1 and cancel rate 0, where
  the claim asks for 9/10 and 1/10, the rates that the service holds once the call has
  returned.
\<close>

theorem C8_report_carries_stale_rates:
  "(let S = ac_run
       (map (\<lambda>c. TrackSuggestionDisplayed 1000 [c] ''/test/file.ts'' ''ts'' ''gpt-4'' ''openai'' 50 10)
          ''abcdefghij'' @
        map (\<lambda>c. TrackAccept 2000 [c]) ''abcdefghi'' @
        [TrackCancel 3000 ''j''])
    in map stats (ac_inFlight S) =
         [\<lparr>tabAccepts = 9, escCancels = 1, totalSuggestions = 10,
           acceptanceRate = 1, cancelRate = 0\<rparr>] \<and>
       \<not> rates_consistent \<lparr>tabAccepts = 9, escCancels = 1, totalSuggestions = 10,
                            acceptanceRate = 1, cancelRate = 0\<rparr> \<and>
       map (length \<circ> events) (ac_inFlight S) = [10] \<and>
       ac_statistics S =
         \<lparr>tabAccepts = 9, escCancels = 1, totalSuggestions = 10,
          acceptanceRate = 9 / 10, cancelRate = 1 / 10\<rparr>)"
  by code_simp

section \<open>Claim C1: what a flush delivers\<close>





















end
